theory Spec2Isabelle
  imports Complex_Main
begin

section \<open>Values: Python floats\<close>

text \<open>
  The values of the matrix are Python floats, that is IEEE 754 binary64 numbers. A float
  is a finite value with the real number it stands for, negative zero, one of the two
  infinities, or NaN; \<open>Finite 0\<close> is the positive zero. Every binary64 number is such
  a value; the model does not say which reals are binary64 numbers, so the statements
  below are about a superset of the floats. Equality in HOL is identity of values, so
  \<open>NaN = NaN\<close> holds and the two zeros differ; Python's \<^verbatim>\<open>==\<close> is \<open>feq\<close> below.
\<close>

datatype pyfloat = Finite real | NegZero | PInf | NInf | NaN

text \<open>The power of two with an integer exponent.\<close>

definition pow2 :: "int \<Rightarrow> real" where
  "pow2 e = (if 0 \<le> e then 2 ^ nat e else 1 / 2 ^ nat (- e))"

text \<open>The nearest integer, a tie going to the even one.\<close>

definition rne :: "real \<Rightarrow> int" where
  "rne q =
     (let n = \<lfloor>q\<rfloor> in
      if q - of_int n < 1 / 2 then n
      else if 1 / 2 < q - of_int n then n + 1
      else if even n then n else n + 1)"

text \<open>
  Rounding of a real result to binary64, to nearest with ties to even: 53 significant
  bits, the exponent of a normal number at least -1022 (below that the spacing stays
  \<open>2\<^sup>-\<^sup>1\<^sup>0\<^sup>7\<^sup>4\<close>), overflow to an infinity from \<open>2\<^sup>1\<^sup>0\<^sup>2\<^sup>4\<close> on, and a zero with the sign
  of the result when it rounds to zero.
\<close>

definition fround :: "real \<Rightarrow> pyfloat" where
  "fround x =
     (if x = 0 then Finite 0
      else
        (let e = max (- 1022) \<lfloor>log 2 \<bar>x\<bar>\<rfloor>;
             u = pow2 (e - 52);
             r = of_int (rne (\<bar>x\<bar> / u)) * u
         in if pow2 1024 \<le> r then (if x < 0 then NInf else PInf)
            else if r = 0 then (if x < 0 then NegZero else Finite 0)
            else Finite (if x < 0 then - r else r)))"

text \<open>
  Python's binary \<^verbatim>\<open>-\<close> on floats: the exact difference, rounded. An exact
  difference of zero is the positive zero, except for negative zero minus positive zero.
\<close>

fun fsub :: "pyfloat \<Rightarrow> pyfloat \<Rightarrow> pyfloat" where
  "fsub NaN _ = NaN"
| "fsub _ NaN = NaN"
| "fsub PInf PInf = NaN"
| "fsub NInf NInf = NaN"
| "fsub PInf _ = PInf"
| "fsub NInf _ = NInf"
| "fsub _ PInf = NInf"
| "fsub _ NInf = PInf"
| "fsub (Finite a) (Finite b) = (if a = b then Finite 0 else fround (a - b))"
| "fsub (Finite a) NegZero = (if a = 0 then Finite 0 else fround a)"
| "fsub NegZero (Finite b) = (if b = 0 then NegZero else fround (- b))"
| "fsub NegZero NegZero = Finite 0"

text \<open>Python's unary \<^verbatim>\<open>-\<close> on floats.\<close>

fun fneg :: "pyfloat \<Rightarrow> pyfloat" where
  "fneg (Finite a) = (if a = 0 then NegZero else Finite (- a))"
| "fneg NegZero = Finite 0"
| "fneg PInf = NInf"
| "fneg NInf = PInf"
| "fneg NaN = NaN"

text \<open>
  Python's \<^verbatim>\<open>==\<close> on floats: the two zeros are equal, and NaN compares unequal to
  everything, itself included.
\<close>

fun feq :: "pyfloat \<Rightarrow> pyfloat \<Rightarrow> bool" where
  "feq (Finite a) (Finite b) = (a = b)"
| "feq (Finite a) NegZero = (a = 0)"
| "feq NegZero (Finite b) = (b = 0)"
| "feq NegZero NegZero = True"
| "feq PInf PInf = True"
| "feq NInf NInf = True"
| "feq _ _ = False"

text \<open>The comparisons \<^verbatim>\<open>x > 0.0\<close> and \<^verbatim>\<open>x <= 0.0\<close>; both are false of NaN.\<close>

fun fpositive :: "pyfloat \<Rightarrow> bool" where
  "fpositive (Finite a) = (0 < a)"
| "fpositive PInf = True"
| "fpositive _ = False"

fun fnonpositive :: "pyfloat \<Rightarrow> bool" where
  "fnonpositive (Finite a) = (a \<le> 0)"
| "fnonpositive NegZero = True"
| "fnonpositive NInf = True"
| "fnonpositive _ = False"

fun isfinite :: "pyfloat \<Rightarrow> bool" where
  "isfinite (Finite a) = True"
| "isfinite NegZero = True"
| "isfinite _ = False"

fun isnan :: "pyfloat \<Rightarrow> bool" where
  "isnan NaN = True"
| "isnan _ = False"

section \<open>Errors\<close>

text \<open>
  Every exception the module can raise is a value. The first five are the
  \<^verbatim>\<open>ValueError\<close>s raised by \<^verbatim>\<open>Matrix.__init__\<close> itself, with the data their
  messages are formatted from; \<^verbatim>\<open>ParseError\<close> is the \<^verbatim>\<open>ValueError\<close> raised by
  \<^verbatim>\<open>float\<close> on the given cell; \<^verbatim>\<open>MathDomainError\<close> is the \<^verbatim>\<open>ValueError\<close> of
  \<^verbatim>\<open>math.log10\<close>.
\<close>

datatype error =
    DuplicateFeature string
  | FieldCount nat int nat
  | DuplicateTaxon string
  | NoInput
  | NoTaxa
  | ParseError string
  | MathDomainError
  | KeyError string
  | IndexError

text \<open>\<^verbatim>\<open>'%d' % n\<close>\<close>

function str_nat :: "nat \<Rightarrow> string" where
  "str_nat n =
     (if n < 10 then [char_of (48 + n)]
      else str_nat (n div 10) @ [char_of (48 + n mod 10)])"
  by pat_completeness auto
termination
  by (relation "measure id") auto

declare str_nat.simps [simp del]

definition str_int :: "int \<Rightarrow> string" where
  "str_int i = (if i < 0 then CHR ''-'' # str_nat (nat (- i)) else str_nat (nat i))"

text \<open>
  The message of each error. \<open>repr\<close> stands for Python's \<^verbatim>\<open>%r\<close> of a string, which
  the messages naming a feature, a taxon or a cell go through.
\<close>

fun message :: "(string \<Rightarrow> string) \<Rightarrow> error \<Rightarrow> string" where
  "message repr (DuplicateFeature featureName) =
     ''Feature name '' @ repr featureName @ '' appears more than once''"
| "message repr (FieldCount row n nFeatures) =
     ''Input row '' @ str_nat row @ '' contains '' @ str_int n @
     '' value fields, but there were '' @ str_nat nFeatures @
     '' feature (column) headers''"
| "message repr (DuplicateTaxon taxaName) =
     ''Taxa name '' @ repr taxaName @ '' appears more than once''"
| "message repr NoInput = ''No input CSV data found.''"
| "message repr NoTaxa = ''No taxa (rows) found in input CSV.''"
| "message repr (ParseError cell) = ''could not convert string to float: '' @ repr cell"
| "message repr MathDomainError = ''math domain error''"
| "message repr (KeyError k) = repr k"
| "message repr IndexError = ''list index out of range''"

section \<open>The matrix and its construction\<close>

text \<open>
  An \<^verbatim>\<open>OrderedDict\<close> from names to lists of values is an association list in
  insertion order.
\<close>

type_synonym odict = "(string \<times> pyfloat list) list"

record matrix =
  taxa :: odict
  features :: odict

definition keys :: "odict \<Rightarrow> string list" where
  "keys d = map fst d"

text \<open>\<^verbatim>\<open>d[k]\<close>\<close>

definition getitem :: "odict \<Rightarrow> string \<Rightarrow> error + pyfloat list" where
  "getitem d k = (case map_of d k of None \<Rightarrow> Inl (KeyError k) | Some vs \<Rightarrow> Inr vs)"

text \<open>\<^verbatim>\<open>d[k].append(v)\<close>\<close>

fun append_at :: "string \<Rightarrow> pyfloat \<Rightarrow> odict \<Rightarrow> error + odict" where
  "append_at k v [] = Inl (KeyError k)"
| "append_at k v ((k', vs) # d) =
     (if k' = k then Inr ((k', vs @ [v]) # d)
      else (case append_at k v d of Inl e \<Rightarrow> Inl e | Inr d' \<Rightarrow> Inr ((k', vs) # d')))"

text \<open>
  \<^verbatim>\<open>str.strip\<close>. A cell is a string of code points below 256; the characters with
  \<^verbatim>\<open>str.isspace\<close> among them are the ones listed.
\<close>

definition isspace :: "char \<Rightarrow> bool" where
  "isspace c = ((of_char c :: nat) \<in> {9, 10, 11, 12, 13, 28, 29, 30, 31, 32, 133, 160})"

definition strip :: "string \<Rightarrow> string" where
  "strip s = rev (dropWhile isspace (rev (dropWhile isspace s)))"

text \<open>
  The header row (lines 24 to 30): every stripped name of \<^verbatim>\<open>fields[1:]\<close> is added to
  \<^verbatim>\<open>features\<close> with an empty list, unless it is there already.
\<close>

fun addFeatures :: "string list \<Rightarrow> odict \<Rightarrow> error + odict" where
  "addFeatures [] fs = Inr fs"
| "addFeatures (featureName # rest) fs =
     (if featureName \<in> set (keys fs) then Inl (DuplicateFeature featureName)
      else addFeatures rest (fs @ [(featureName, [])]))"

text \<open>
  The loop of lines 46 to 49 over \<^verbatim>\<open>zip(features, map(float, fields[1:]))\<close>. The
  builtin \<^verbatim>\<open>float\<close> is the parameter \<open>pfloat\<close>; \<open>None\<close> is its \<^verbatim>\<open>ValueError\<close>.
\<close>

fun appendValues ::
  "(string \<Rightarrow> pyfloat option) \<Rightarrow> string \<Rightarrow> (string \<times> string) list \<Rightarrow> matrix \<Rightarrow> error + matrix"
where
  "appendValues pfloat taxaName [] m = Inr m"
| "appendValues pfloat taxaName ((featureName, cell) # rest) m =
     (case pfloat cell of
        None \<Rightarrow> Inl (ParseError cell)
      | Some v \<Rightarrow>
          (case append_at taxaName v (taxa m) of
             Inl e \<Rightarrow> Inl e
           | Inr ts \<Rightarrow>
               (case append_at featureName v (features m) of
                  Inl e \<Rightarrow> Inl e
                | Inr fs \<Rightarrow> appendValues pfloat taxaName rest (m\<lparr>taxa := ts, features := fs\<rparr>))))"

text \<open>
  A data row (lines 33 to 49). \<open>row\<close> is its 1-based number and \<open>flds\<close> is the
  \<^verbatim>\<open>fields\<close> of the source.
\<close>

definition dataRow ::
  "(string \<Rightarrow> pyfloat option) \<Rightarrow> nat \<Rightarrow> nat \<Rightarrow> string list \<Rightarrow> matrix \<Rightarrow> error + matrix"
where
  "dataRow pfloat row nFeatures flds m =
     (if int (length flds) - 1 \<noteq> int nFeatures
      then Inl (FieldCount row (int (length flds) - 1) nFeatures)
      else (case flds of
              [] \<Rightarrow> Inl IndexError
            | name # cells \<Rightarrow>
                (let taxaName = strip name in
                 if taxaName \<in> set (keys (taxa m)) then Inl (DuplicateTaxon taxaName)
                 else appendValues pfloat taxaName (zip (keys (features m)) cells)
                        (m\<lparr>taxa := taxa m @ [(taxaName, [])]\<rparr>))))"

text \<open>
  The loop over the rows that \<^verbatim>\<open>csv.reader\<close> yields (a blank line yields the empty
  row), numbered from 1. The loop state is the two dictionaries and \<^verbatim>\<open>nFeatures\<close>,
  which row 1 sets before any other row reads it.
\<close>

fun readRows ::
  "(string \<Rightarrow> pyfloat option) \<Rightarrow> nat \<Rightarrow> string list list \<Rightarrow> matrix \<times> nat \<Rightarrow> error + matrix \<times> nat"
where
  "readRows pfloat row [] s = Inr s"
| "readRows pfloat row (flds # rest) (m, nFeatures) =
     (if row = 1 then
        (case addFeatures (map strip (drop 1 flds)) (features m) of
           Inl e \<Rightarrow> Inl e
         | Inr fs \<Rightarrow> readRows pfloat (row + 1) rest (m\<lparr>features := fs\<rparr>, length fs))
      else
        (case dataRow pfloat row nFeatures flds m of
           Inl e \<Rightarrow> Inl e
         | Inr m' \<Rightarrow> readRows pfloat (row + 1) rest (m', nFeatures)))"

text \<open>\<^verbatim>\<open>Matrix.__init__\<close>: the rows are read, then the two emptiness checks run.\<close>

definition Matrix :: "(string \<Rightarrow> pyfloat option) \<Rightarrow> string list list \<Rightarrow> error + matrix" where
  "Matrix pfloat rows =
     (case readRows pfloat 1 rows (\<lparr>taxa = [], features = []\<rparr>, 0) of
        Inl e \<Rightarrow> Inl e
      | Inr (m, nFeatures) \<Rightarrow>
          if features m = [] then Inl NoInput
          else if taxa m = [] then Inl NoTaxa
          else Inr m)"

section \<open>Queries\<close>

text \<open>
  \<^verbatim>\<open>math.log10\<close>: a domain error for the two zeros, negative numbers and minus
  infinity; NaN and plus infinity are returned as they are. The logarithm of a positive
  number is the exact one: which float the library returns for it is not modelled.
\<close>

fun log10 :: "pyfloat \<Rightarrow> error + pyfloat" where
  "log10 (Finite a) = (if 0 < a then Inr (Finite (log 10 a)) else Inl MathDomainError)"
| "log10 NegZero = Inl MathDomainError"
| "log10 PInf = Inr PInf"
| "log10 NInf = Inl MathDomainError"
| "log10 NaN = Inr NaN"

text \<open>Lines 74 to 77: the logarithm, or 0.0 when it raises.\<close>

definition scaled :: "pyfloat \<Rightarrow> pyfloat" where
  "scaled v = (case log10 v of Inl e \<Rightarrow> Finite 0 | Inr y \<Rightarrow> y)"

text \<open>Lines 71 to 79.\<close>

definition scaledvalues :: "matrix \<Rightarrow> string \<Rightarrow> bool \<Rightarrow> error + pyfloat list" where
  "scaledvalues m featureName logged =
     (case getitem (features m) featureName of
        Inl e \<Rightarrow> Inl e
      | Inr vs \<Rightarrow> Inr (if logged then map scaled vs else vs))"

text \<open>A loop that appends one result per element and stops at the first exception.\<close>

fun mapE :: "('a \<Rightarrow> error + 'b) \<Rightarrow> 'a list \<Rightarrow> error + 'b list" where
  "mapE f [] = Inr []"
| "mapE f (x # xs) =
     (case f x of
        Inl e \<Rightarrow> Inl e
      | Inr y \<Rightarrow> (case mapE f xs of Inl e \<Rightarrow> Inl e | Inr ys \<Rightarrow> Inr (y # ys)))"

text \<open>
  \<^verbatim>\<open>values[taxaName1] - values[taxaName2]\<close>, where \<open>vals\<close> is
  \<^verbatim>\<open>dict(zip(self.taxa, scaledvalues))\<close>.
\<close>

definition difference ::
  "(string \<Rightarrow> pyfloat option) \<Rightarrow> string \<Rightarrow> string \<Rightarrow> error + pyfloat" where
  "difference vals taxaName1 taxaName2 =
     (case vals taxaName1 of
        None \<Rightarrow> Inl (KeyError taxaName1)
      | Some a \<Rightarrow>
          (case vals taxaName2 of
             None \<Rightarrow> Inl (KeyError taxaName2)
           | Some b \<Rightarrow> Inr (fsub a b)))"

definition distanceMatrix :: "matrix \<Rightarrow> string \<Rightarrow> bool \<Rightarrow> error + pyfloat list list" where
  "distanceMatrix m featureName logged =
     (case scaledvalues m featureName logged of
        Inl e \<Rightarrow> Inl e
      | Inr sv \<Rightarrow>
          (let vals = map_of (rev (zip (keys (taxa m)) sv)) in
           mapE (\<lambda>taxaName1. mapE (\<lambda>taxaName2. difference vals taxaName1 taxaName2)
                               (keys (taxa m)))
                (keys (taxa m))))"

text \<open>\<^verbatim>\<open>xs[i]\<close> for an index that is not negative.\<close>

definition item :: "'a list \<Rightarrow> nat \<Rightarrow> error + 'a" where
  "item xs i = (if i < length xs then Inr (xs ! i) else Inl IndexError)"

definition entry :: "pyfloat list list \<Rightarrow> nat \<Rightarrow> nat \<Rightarrow> error + pyfloat" where
  "entry dm row col = (case item dm row of Inl e \<Rightarrow> Inl e | Inr r \<Rightarrow> item r col)"

definition upperDiagonal :: "matrix \<Rightarrow> string \<Rightarrow> bool \<Rightarrow> error + pyfloat list" where
  "upperDiagonal m featureName logged =
     (let nTaxa = length (taxa m) in
      case distanceMatrix m featureName logged of
        Inl e \<Rightarrow> Inl e
      | Inr dm \<Rightarrow>
          (case mapE (\<lambda>row. mapE (\<lambda>col. entry dm row col) [row + 1 ..< nTaxa]) [0 ..< nTaxa] of
             Inl e \<Rightarrow> Inl e
           | Inr parts \<Rightarrow> Inr (concat parts)))"

text \<open>
  An \<^verbatim>\<open>ElementTree\<close> node: an element with its tag, text and children, or a comment.
\<close>

datatype xml = Element string "string option" "xml list" | Comment string

text \<open>\<open>pstr\<close> is Python's \<^verbatim>\<open>str\<close> on floats.\<close>

definition upperDiagonalAsXML ::
  "(pyfloat \<Rightarrow> string) \<Rightarrow> matrix \<Rightarrow> string \<Rightarrow> string \<Rightarrow> bool \<Rightarrow> error + xml" where
  "upperDiagonalAsXML pstr m featureName elementName logged =
     (case upperDiagonal m featureName logged of
        Inl e \<Rightarrow> Inl e
      | Inr vs \<Rightarrow>
          Inr (Element elementName None
                 (map (\<lambda>value. Element ''value'' (Some value) []) (map pstr vs))))"

fun featureLoop ::
  "(pyfloat \<Rightarrow> string) \<Rightarrow> matrix \<Rightarrow> bool \<Rightarrow> string list \<Rightarrow> xml list \<Rightarrow> error + xml list" where
  "featureLoop pstr m logged [] result = Inr result"
| "featureLoop pstr m logged (featureName # rest) result =
     (case upperDiagonalAsXML pstr m featureName ''feature'' logged of
        Inl e \<Rightarrow> Inl e
      | Inr child \<Rightarrow> featureLoop pstr m logged rest (result @ [Comment featureName, child]))"

definition allFeaturesAsXML ::
  "(pyfloat \<Rightarrow> string) \<Rightarrow> matrix \<Rightarrow> string \<Rightarrow> bool \<Rightarrow> error + xml" where
  "allFeaturesAsXML pstr m elementName logged =
     (case featureLoop pstr m logged (keys (features m)) [] of
        Inl e \<Rightarrow> Inl e
      | Inr children \<Rightarrow> Inr (Element elementName None children))"


section \<open>The grid invariant\<close>

text \<open>
  The two dictionaries are two views of one grid: the names are unique, every taxon has
  one value per feature, and the value lists of the features are the columns of the
  value lists of the taxa.
\<close>

definition grid :: "matrix \<Rightarrow> bool" where
  "grid m \<longleftrightarrow>
     distinct (keys (taxa m)) \<and> distinct (keys (features m)) \<and>
     (\<forall>vs \<in> set (map snd (taxa m)). length vs = length (features m)) \<and>
     map snd (features m) =
       map (\<lambda>j. map (\<lambda>vs. vs ! j) (map snd (taxa m))) [0 ..< length (features m)]"

text \<open>What a data row contributes to \<^verbatim>\<open>taxa\<close> when it is read without error.\<close>

definition taxon_of :: "(string \<Rightarrow> pyfloat option) \<Rightarrow> string list \<Rightarrow> string \<times> pyfloat list" where
  "taxon_of pfloat flds = (strip (hd flds), map (the \<circ> pfloat) (tl flds))"

section \<open>Concrete inputs\<close>

text \<open>
  The builtin \<^verbatim>\<open>float\<close> on the cells of the inputs below: each entry is what Python
  returns for that string. It stands in for \<open>pfloat\<close> on these inputs only.
\<close>

definition float_lit :: "string \<Rightarrow> pyfloat option" where
  "float_lit = map_of
     [('' 3'', Finite 3), ('' 4'', Finite 4), ('' 5'', Finite 5), ('' 6'', Finite 6),
      ('' 7'', Finite 7), ('' 9'', Finite 9), ('' 100'', Finite 100), ('' 0'', Finite 0),
      ('' -1'', Finite (- 1)), ('' inf'', PInf), ('' -inf'', NInf), ('' -0.0'', NegZero),
      ('' 1'', Finite 1), ('' 1e16'', Finite 10000000000000000)]"

text \<open>The input of \<^verbatim>\<open>testTaxaNames\<close>, as \<^verbatim>\<open>csv.reader\<close> splits it, and its matrix.\<close>

definition two_taxa :: "string list list" where
  "two_taxa =
     [[''Ignored'', '' A'', '' B''], [''name1'', '' 3'', '' 4''], [''name2'', '' 5'', '' 6'']]"

definition two_taxa_matrix :: matrix where
  "two_taxa_matrix =
     \<lparr>taxa = [(''name1'', [Finite 3, Finite 4]), (''name2'', [Finite 5, Finite 6])],
      features = [(''A'', [Finite 3, Finite 5]), (''B'', [Finite 4, Finite 6])]\<rparr>"



text \<open>One taxon whose value is the string \<^verbatim>\<open>inf\<close>, which \<^verbatim>\<open>float\<close> accepts.\<close>

definition infinite_value :: "string list list" where
  "infinite_value = [[''Ignored'', '' A''], [''name1'', '' inf'']]"

definition infinite_value_matrix :: matrix where
  "infinite_value_matrix = \<lparr>taxa = [(''name1'', [PInf])], features = [(''A'', [PInf])]\<rparr>"

text \<open>
  Python's \<^verbatim>\<open>str\<close> on the floats that occur in the upper diagonals of the inputs
  below. It stands in for \<open>pstr\<close> on these values only.
\<close>

definition str_lit :: "pyfloat \<Rightarrow> string" where
  "str_lit v = the (map_of
     [(Finite (- 2), ''-2.0''), (Finite (- 3), ''-3.0''), (Finite (- 4), ''-4.0''),
      (Finite (- 5), ''-5.0''), (Finite 0, ''0.0''), (NegZero, ''-0.0'')] v)"

text \<open>A negative zero and two positive zeros.\<close>

definition zeros :: "string list list" where
  "zeros = [[''Ignored'', '' A''], [''name1'', '' -0.0''], [''name2'', '' 0''], [''name3'', '' 0'']]"

definition zeros_matrix :: matrix where
  "zeros_matrix =
     \<lparr>taxa = [(''name1'', [NegZero]), (''name2'', [Finite 0]), (''name3'', [Finite 0])],
      features = [(''A'', [NegZero, Finite 0, Finite 0])]\<rparr>"



text \<open>The input of \<^verbatim>\<open>testAllfeaturesAsXML\<close> and its matrix.\<close>

definition three_taxa :: "string list list" where
  "three_taxa =
     [[''Ignored'', '' A'', '' B''], [''name1'', '' 3'', '' 4''], [''name2'', '' 5'', '' 7''],
      [''name3'', '' 7'', '' 9'']]"

definition three_taxa_matrix :: matrix where
  "three_taxa_matrix =
     \<lparr>taxa = [(''name1'', [Finite 3, Finite 4]), (''name2'', [Finite 5, Finite 7]),
              (''name3'', [Finite 7, Finite 9])],
      features = [(''A'', [Finite 3, Finite 5, Finite 7]), (''B'', [Finite 4, Finite 7, Finite 9])]\<rparr>"

text \<open>A repeated taxon name in row 3, before a row that is too long.\<close>

definition repeated_then_long :: "string list list" where
  "repeated_then_long =
     [[''Ignored'', '' A''], [''x'', '' 3''], [''x'', '' 4''], [''y'', '' 3'', '' 4'']]"

text \<open>The same with a header that declares no feature.\<close>

definition no_features_repeated :: "string list list" where
  "no_features_repeated = [[''Ignored''], [''x''], [''x''], [''y'', '' 3'']]"

section \<open>Float arithmetic\<close>

lemma pow2_pos [simp]: "0 < pow2 e"
  by (simp add: pow2_def)

lemma pow2_powr: "pow2 e = 2 powr (of_int e)"
  by (simp add: pow2_def powr_real_of_int inverse_eq_divide)

text \<open>Rounding, once the binade of the argument is known.\<close>

lemma fround_at:
  assumes "x \<noteq> 0" and "pow2 e \<le> \<bar>x\<bar>" and "\<bar>x\<bar> < pow2 (e + 1)" and "- 1022 \<le> e"
  shows "fround x =
     (let r = of_int (rne (\<bar>x\<bar> / pow2 (e - 52))) * pow2 (e - 52)
      in if pow2 1024 \<le> r then (if x < 0 then NInf else PInf)
         else if r = 0 then (if x < 0 then NegZero else Finite 0)
         else Finite (if x < 0 then - r else r))"
proof -
  have "\<lfloor>log 2 \<bar>x\<bar>\<rfloor> = e"
    using assms by (subst floor_log_eq_powr_iff) (simp_all add: pow2_powr)
  then show ?thesis using assms(1,4) by (simp add: fround_def Let_def max_def)
qed

text \<open>Small integers are floats: rounding leaves them as they are.\<close>

lemma fround_small [simp]:
  "fround 2 = Finite 2" "fround (- 2) = Finite (- 2)"
  "fround 3 = Finite 3" "fround (- 3) = Finite (- 3)"
  "fround 4 = Finite 4" "fround (- 4) = Finite (- 4)"
  "fround 5 = Finite 5" "fround (- 5) = Finite (- 5)"
  by (simp_all add: fround_at [where e = 1] fround_at [where e = 2] pow2_def rne_def Let_def)


text \<open>The difference of two finite floats can overflow: \<open>2\<^sup>1\<^sup>0\<^sup>2\<^sup>3 - (- 2\<^sup>1\<^sup>0\<^sup>2\<^sup>3)\<close> is infinity.\<close>

lemma fsub_overflows:
  "fsub (Finite (pow2 1023)) (Finite (- pow2 1023)) = PInf"
  "fsub (Finite (- pow2 1023)) (Finite (pow2 1023)) = NInf"
  by (simp_all add: fround_at [where e = 1024] pow2_def rne_def Let_def)

lemma fround_neg: "x \<noteq> 0 \<Longrightarrow> fround (- x) = fneg (fround x)"
  by (auto simp: fround_def Let_def)

lemma fround_cases: "isfinite (fround x) \<or> fround x = PInf \<or> fround x = NInf"
  by (auto simp: fround_def Let_def)

lemma fneg_fneg [simp]: "fneg (fneg x) = x"
  by (cases x) auto

lemma feq_refl: "\<not> isnan x \<Longrightarrow> feq x x"
  by (cases x) auto

text \<open>
  The laws of subtraction that the distance matrix inherits: it is sign-symmetric unless
  the result is NaN, also when the difference overflows, and a finite value minus itself
  is the positive zero.
\<close>

lemma fround_not_nan [simp]: "\<not> isnan (fround x)"
  using fround_cases [of x] by (cases "fround x") auto

lemma isnan_fneg [simp]: "isnan (fneg x) = isnan x"
  by (cases x) auto

lemma fsub_finite_sym:
  assumes "isfinite a" and "isfinite b"
  shows "feq (fsub a b) (fneg (fsub b a))"
proof -
  have r: "feq (fround x) (fneg (fround (- x)))" if "x \<noteq> 0" for x
    using that by (simp add: fround_neg feq_refl)
  have r': "feq (fround (- x)) (fneg (fround x))" if "x \<noteq> 0" for x
    using that by (simp add: fround_neg feq_refl)
  have d: "feq (fround (x - y)) (fneg (fround (y - x)))" if "x \<noteq> y" for x y :: real
    using r [of "x - y"] that by simp
  from assms show ?thesis
    by (cases a; cases b) (simp_all add: r r' d)
qed

lemma fsub_self: "isfinite a \<Longrightarrow> fsub a a = Finite 0"
  by (cases a) simp_all

lemma fsub_self_zero: "feq (fsub a a) (Finite 0) \<longleftrightarrow> isfinite a"
  by (cases a) simp_all

lemma fsub_finite_cases:
  assumes "isfinite a" and "isfinite b"
  shows "isfinite (fsub a b) \<or> fsub a b = PInf \<or> fsub a b = NInf"
  using assms fround_cases by (cases a; cases b) simp_all

lemma fsub_nan:
  "isnan (fsub a b) \<longleftrightarrow> isnan a \<or> isnan b \<or> (a = PInf \<and> b = PInf) \<or> (a = NInf \<and> b = NInf)"
proof (cases "isfinite a \<and> isfinite b")
  case True
  with fsub_finite_cases [of a b] have "\<not> isnan (fsub a b)" by (cases "fsub a b") auto
  with True show ?thesis by (cases a; cases b) simp_all
next
  case False
  then show ?thesis by (cases a; cases b) simp_all
qed

lemma fsub_sym: "feq (fsub a b) (fneg (fsub b a)) \<longleftrightarrow> \<not> isnan (fsub a b)"
proof (cases "isfinite a \<and> isfinite b")
  case True
  then show ?thesis using fsub_finite_sym [of a b] fsub_nan [of a b] by (cases a; cases b) simp_all
next
  case False
  then show ?thesis by (cases a; cases b) simp_all
qed

section \<open>Construction establishes the invariant\<close>

lemma addFeatures_Inr:
  "addFeatures ns fs = Inr fs' \<longleftrightarrow>
     distinct ns \<and> set ns \<inter> set (keys fs) = {} \<and> fs' = fs @ map (\<lambda>n. (n, [])) ns"
  by (induction ns arbitrary: fs) (auto simp: keys_def)

lemma append_at_mid:
  "k \<notin> set (keys d1) \<Longrightarrow> append_at k v (d1 @ (k, xs) # d2) = Inr (d1 @ (k, xs @ [v]) # d2)"
  by (induction d1) (auto simp: keys_def)

lemma appendValues_Inr:
  assumes "appendValues pfloat name (zip (keys todo) cells) m = Inr m'"
    and "taxa m = ts @ [(name, acc)]" and "name \<notin> set (keys ts)"
    and "features m = d1 @ todo" and "distinct (keys (d1 @ todo))"
    and "length cells = length todo"
  shows "\<exists>vals. map pfloat cells = map Some vals \<and>
           taxa m' = ts @ [(name, acc @ vals)] \<and>
           features m' = d1 @ map (\<lambda>((k, xs), v). (k, xs @ [v])) (zip todo vals)"
  using assms
proof (induction todo arbitrary: cells m acc d1)
  case Nil
  then show ?case by (simp add: keys_def)
next
  case (Cons p todo)
  obtain k xs where p: "p = (k, xs)" by (cases p)
  from Cons.prems(6) obtain c cs where cells: "cells = c # cs" by (cases cells) auto
  from Cons.prems(1) obtain v where v: "pfloat c = Some v"
    by (auto simp: cells p keys_def split: option.splits)
  have kd1: "k \<notin> set (keys d1)" using Cons.prems(5) by (auto simp: p keys_def)
  have t: "append_at name v (taxa m) = Inr (ts @ [(name, acc @ [v])])"
    using append_at_mid [OF Cons.prems(3), of v acc "[]"] Cons.prems(2) by simp
  have f: "append_at k v (features m) = Inr (d1 @ (k, xs @ [v]) # todo)"
    using append_at_mid [OF kd1, of v xs todo] Cons.prems(4) by (simp add: p)
  let ?m = "m\<lparr>taxa := ts @ [(name, acc @ [v])], features := d1 @ (k, xs @ [v]) # todo\<rparr>"
  have step: "appendValues pfloat name (zip (keys todo) cs) ?m = Inr m'"
    using Cons.prems(1) by (simp add: cells p keys_def v t f)
  have "\<exists>vals. map pfloat cs = map Some vals \<and>
           taxa m' = ts @ [(name, (acc @ [v]) @ vals)] \<and>
           features m' = (d1 @ [(k, xs @ [v])]) @ map (\<lambda>((k, xs), v). (k, xs @ [v])) (zip todo vals)"
    apply (rule Cons.IH [OF step])
    using Cons.prems by (auto simp: p cells keys_def)
  then obtain vals where "map pfloat cs = map Some vals"
    "taxa m' = ts @ [(name, (acc @ [v]) @ vals)]"
    "features m' = (d1 @ [(k, xs @ [v])]) @ map (\<lambda>((k, xs), v). (k, xs @ [v])) (zip todo vals)"
    by blast
  then show ?case
    by (intro exI [of _ "v # vals"]) (simp add: cells v p)
qed

lemma dataRow_Inr:
  assumes "dataRow pfloat row (length (features m)) flds m = Inr m'"
    and "distinct (keys (features m))"
  shows "\<exists>name cells vals. flds = name # cells \<and> length cells = length (features m) \<and>
           strip name \<notin> set (keys (taxa m)) \<and>
           map pfloat cells = map Some vals \<and>
           taxa m' = taxa m @ [(strip name, vals)] \<and>
           features m' = map (\<lambda>((k, xs), v). (k, xs @ [v])) (zip (features m) vals)"
proof -
  from assms(1) obtain name cells where flds: "flds = name # cells"
    by (cases flds) (auto simp: dataRow_def)
  from assms(1) have len: "length cells = length (features m)"
    by (auto simp: dataRow_def flds split: if_splits)
  from assms(1) have new: "strip name \<notin> set (keys (taxa m))"
    by (auto simp: dataRow_def flds Let_def split: if_splits)
  let ?m = "m\<lparr>taxa := taxa m @ [(strip name, [])]\<rparr>"
  from assms(1) have run:
    "appendValues pfloat (strip name) (zip (keys (features m)) cells) ?m = Inr m'"
    using len new by (simp add: dataRow_def flds Let_def)
  have "\<exists>vals. map pfloat cells = map Some vals \<and>
           taxa m' = taxa m @ [(strip name, [] @ vals)] \<and>
           features m' = [] @ map (\<lambda>((k, xs), v). (k, xs @ [v])) (zip (features m) vals)"
    by (rule appendValues_Inr [OF run]) (use new assms(2) len in simp_all)
  then show ?thesis using flds len new by auto
qed

lemma parsed_values: "map pfloat cells = map Some vals \<Longrightarrow> vals = map (the \<circ> pfloat) cells"
  by (induction cells arbitrary: vals) auto

lemma grid_dataRow:
  assumes "dataRow pfloat row (length (features m)) flds m = Inr m'" and "grid m"
  shows "grid m' \<and> keys (features m') = keys (features m) \<and>
         taxa m' = taxa m @ [taxon_of pfloat flds] \<and> length flds = Suc (length (features m)) \<and>
         (\<forall>c \<in> set (tl flds). pfloat c \<noteq> None)"
proof -
  from assms(2) have d: "distinct (keys (features m))" by (simp add: grid_def)
  from dataRow_Inr [OF assms(1) d] obtain name cells vals where
    flds: "flds = name # cells" and len: "length cells = length (features m)"
    and new: "strip name \<notin> set (keys (taxa m))"
    and vals: "map pfloat cells = map Some vals"
    and t: "taxa m' = taxa m @ [(strip name, vals)]"
    and f: "features m' = map (\<lambda>((k, xs), v). (k, xs @ [v])) (zip (features m) vals)"
    by blast
  from vals have lv: "length vals = length (features m)"
    using len by (metis length_map)
  have ok: "\<forall>c \<in> set cells. pfloat c \<noteq> None"
  proof
    fix c assume "c \<in> set cells"
    then have "pfloat c \<in> set (map Some vals)" using vals by (metis image_eqI set_map)
    then show "pfloat c \<noteq> None" by auto
  qed
  have kf: "keys (features m') = keys (features m)"
    unfolding f keys_def using lv by (intro nth_equalityI) (auto split: prod.splits)
  have lf: "length (features m') = length (features m)"
    using kf unfolding keys_def by (metis length_map)
  have snd_f: "map snd (features m') = map (\<lambda>(xs, v). xs @ [v]) (zip (map snd (features m)) vals)"
    unfolding f using lv by (intro nth_equalityI) (auto split: prod.splits)
  have tr: "map snd (features m) =
       map (\<lambda>j. map (\<lambda>vs. vs ! j) (map snd (taxa m))) [0 ..< length (features m)]"
    using assms(2) by (simp add: grid_def)
  have "map snd (features m') =
       map (\<lambda>j. map (\<lambda>vs. vs ! j) (map snd (taxa m'))) [0 ..< length (features m')]"
    unfolding snd_f lf t
    apply (subst tr)
    using lv by (intro nth_equalityI) auto
  moreover have "distinct (keys (taxa m'))"
    using assms(2) new by (simp add: t grid_def keys_def)
  moreover have "\<forall>vs \<in> set (map snd (taxa m')). length vs = length (features m')"
    using assms(2) lv lf by (auto simp: t grid_def)
  ultimately show ?thesis
    using kf d ok len parsed_values [OF vals] by (simp add: grid_def t flds taxon_of_def)
qed

lemma grid_readRows:
  assumes "readRows pfloat row rows (m, length (features m)) = Inr (m', n')"
    and "1 < row" and "grid m"
  shows "grid m' \<and> keys (features m') = keys (features m) \<and> n' = length (features m) \<and>
         taxa m' = taxa m @ map (taxon_of pfloat) rows \<and>
         (\<forall>r \<in> set rows. length r = Suc (length (features m)) \<and> (\<forall>c \<in> set (tl r). pfloat c \<noteq> None))"
  using assms
proof (induction rows arbitrary: row m)
  case Nil
  then show ?case by auto
next
  case (Cons flds rows)
  from Cons.prems obtain m1 where
    r: "dataRow pfloat row (length (features m)) flds m = Inr m1"
    and rest: "readRows pfloat (row + 1) rows (m1, length (features m)) = Inr (m', n')"
    by (auto split: sum.splits)
  from grid_dataRow [OF r Cons.prems(3)] have g1: "grid m1"
    and k1: "keys (features m1) = keys (features m)"
    and t1: "taxa m1 = taxa m @ [taxon_of pfloat flds]"
    and l1: "length flds = Suc (length (features m))"
    and p1: "\<forall>c \<in> set (tl flds). pfloat c \<noteq> None" by auto
  from k1 have lf: "length (features m1) = length (features m)"
    unfolding keys_def by (metis length_map)
  with rest have run: "readRows pfloat (row + 1) rows (m1, length (features m1)) = Inr (m', n')"
    by simp
  have "1 < row + 1" using Cons.prems(2) by simp
  from Cons.IH [OF run this g1]
  show ?case using k1 t1 l1 p1 lf by simp
qed

lemma Matrix_Inr:
  assumes "Matrix pfloat rows = Inr m"
  shows "grid m \<and> features m \<noteq> [] \<and> taxa m \<noteq> [] \<and>
         (\<exists>hdr drows. rows = hdr # drows \<and> keys (features m) = map strip (drop 1 hdr) \<and>
            taxa m = map (taxon_of pfloat) drows \<and>
            (\<forall>r \<in> set drows. length r = Suc (length (features m)) \<and>
               (\<forall>c \<in> set (tl r). pfloat c \<noteq> None)))"
proof -
  let ?m0 = "\<lparr>taxa = [], features = []\<rparr>"
  from assms obtain n where rr: "readRows pfloat 1 rows (?m0, 0) = Inr (m, n)"
    and ne: "features m \<noteq> []" "taxa m \<noteq> []"
    by (auto simp: Matrix_def split: sum.splits if_splits)
  from rr ne obtain hdr drows where rows: "rows = hdr # drows"
    by (cases rows) auto
  from rr obtain fs where af: "addFeatures (map strip (drop 1 hdr)) [] = Inr fs"
    and rest: "readRows pfloat (Suc (Suc 0)) drows (?m0\<lparr>features := fs\<rparr>, length fs) = Inr (m, n)"
    by (auto simp: rows split: sum.splits)
  from af have fs: "fs = map (\<lambda>n. (n, [])) (map strip (drop 1 hdr))"
    and dn: "distinct (map strip (drop 1 hdr))"
    by (simp_all add: addFeatures_Inr)
  let ?m1 = "?m0\<lparr>features := fs\<rparr>"
  have g1: "grid ?m1"
    using dn by (simp add: grid_def keys_def fs comp_def map_replicate_const)
  have run: "readRows pfloat (Suc (Suc 0)) drows (?m1, length (features ?m1)) = Inr (m, n)"
    using rest by simp
  have k1: "keys (features ?m1) = map strip (drop 1 hdr)"
    by (simp add: keys_def fs comp_def)
  have l1: "length (features ?m1) = length (features m)"
    using grid_readRows [OF run _ g1] unfolding keys_def by (metis length_map less_Suc_eq One_nat_def)
  from grid_readRows [OF run _ g1] show ?thesis
    using ne rows k1 l1 by simp
qed

section \<open>The queries on a matrix that satisfies the invariant\<close>

lemma mapE_Inr: "(\<And>x. x \<in> set xs \<Longrightarrow> f x = Inr (g x)) \<Longrightarrow> mapE f xs = Inr (map g xs)"
  by (induction xs) auto

lemma getitem_nth:
  assumes "distinct (keys d)" and "j < length d"
  shows "getitem d (fst (d ! j)) = Inr (snd (d ! j))"
proof -
  have "(fst (d ! j), snd (d ! j)) \<in> set d" using assms(2) by simp
  then have "map_of d (fst (d ! j)) = Some (snd (d ! j))"
    using assms(1) by (simp add: keys_def)
  then show ?thesis by (simp add: getitem_def)
qed

lemma getitem_missing: "k \<notin> set (keys d) \<Longrightarrow> getitem d k = Inl (KeyError k)"
  unfolding getitem_def keys_def by (simp add: map_of_eq_None_iff [THEN iffD2])

lemma getitem_Inr: "getitem d k = Inr vs \<Longrightarrow> \<exists>j < length d. d ! j = (k, vs)"
  unfolding getitem_def
  by (auto split: option.splits dest!: map_of_SomeD simp: in_set_conv_nth)

lemma vals_nth:
  assumes "distinct ks" and "length sv = length ks" and "i < length ks"
  shows "map_of (rev (zip ks sv)) (ks ! i) = Some (sv ! i)"
proof -
  have "(ks ! i, sv ! i) \<in> set (rev (zip ks sv))"
    using assms by (auto simp: in_set_zip)
  moreover have "distinct (map fst (rev (zip ks sv)))"
    using assms by (simp add: rev_map [symmetric])
  ultimately show ?thesis by (simp add: map_of_eq_Some_iff)
qed

lemma grid_feature_length:
  assumes "grid m" and "getitem (features m) f = Inr vs"
  shows "length vs = length (taxa m)"
proof -
  from getitem_Inr [OF assms(2)] obtain j where j: "j < length (features m)"
    and fj: "features m ! j = (f, vs)" by blast
  have "map snd (features m) ! j =
       map (\<lambda>j. map (\<lambda>vs. vs ! j) (map snd (taxa m))) [0 ..< length (features m)] ! j"
    using assms(1) by (simp add: grid_def)
  then show ?thesis using j fj by simp
qed

lemma distanceMatrix_Inr:
  assumes "grid m" and "getitem (features m) f = Inr vs"
  shows "distanceMatrix m f logged =
         Inr (map (\<lambda>a. map (\<lambda>b. fsub a b) (if logged then map scaled vs else vs))
                  (if logged then map scaled vs else vs))"
proof -
  let ?sv = "if logged then map scaled vs else vs"
  let ?ks = "keys (taxa m)"
  let ?vals = "map_of (rev (zip ?ks ?sv))"
  have len: "length ?sv = length ?ks"
    using grid_feature_length [OF assms] by (simp add: keys_def)
  have d: "distinct ?ks" using assms(1) by (simp add: grid_def)
  have look: "?vals (?ks ! i) = Some (?sv ! i)" if "i < length ?ks" for i
    using vals_nth [OF d len that] .
  have inner: "mapE (\<lambda>t2. difference ?vals t1 t2) ?ks =
        Inr (map (\<lambda>t2. fsub (the (?vals t1)) (the (?vals t2))) ?ks)" if "t1 \<in> set ?ks" for t1
  proof (rule mapE_Inr)
    fix t2 assume "t2 \<in> set ?ks"
    with that obtain i j where "i < length ?ks" "t1 = ?ks ! i" "j < length ?ks" "t2 = ?ks ! j"
      by (metis in_set_conv_nth)
    then show "difference ?vals t1 t2 = Inr (fsub (the (?vals t1)) (the (?vals t2)))"
      using look by (simp add: difference_def)
  qed
  have outer: "mapE (\<lambda>t1. mapE (\<lambda>t2. difference ?vals t1 t2) ?ks) ?ks =
        Inr (map (\<lambda>t1. map (\<lambda>t2. fsub (the (?vals t1)) (the (?vals t2))) ?ks) ?ks)"
    by (rule mapE_Inr) (rule inner)
  have eq: "map (\<lambda>t1. map (\<lambda>t2. fsub (the (?vals t1)) (the (?vals t2))) ?ks) ?ks =
        map (\<lambda>a. map (\<lambda>b. fsub a b) ?sv) ?sv"
    using len look by (intro nth_equalityI) simp_all
  show ?thesis
    unfolding distanceMatrix_def scaledvalues_def
    using outer eq assms(2) by (simp add: Let_def)
qed

lemma upperDiagonal_Inr:
  assumes "distanceMatrix m f logged = Inr dm" and "length dm = length (taxa m)"
    and "\<And>r. r \<in> set dm \<Longrightarrow> length r = length (taxa m)"
  shows "upperDiagonal m f logged =
         Inr (concat (map (\<lambda>row. map (\<lambda>col. dm ! row ! col) [row + 1 ..< length (taxa m)])
                          [0 ..< length (taxa m)]))"
proof -
  let ?n = "length (taxa m)"
  have inner: "mapE (\<lambda>col. entry dm row col) [row + 1 ..< ?n] =
      Inr (map (\<lambda>col. dm ! row ! col) [row + 1 ..< ?n])" if "row \<in> set [0 ..< ?n]" for row
    by (rule mapE_Inr) (use that assms(2,3) in \<open>simp add: entry_def item_def\<close>)
  have "mapE (\<lambda>row. mapE (\<lambda>col. entry dm row col) [row + 1 ..< ?n]) [0 ..< ?n] =
      Inr (map (\<lambda>row. map (\<lambda>col. dm ! row ! col) [row + 1 ..< ?n]) [0 ..< ?n])"
    by (rule mapE_Inr) (rule inner)
  then show ?thesis
    unfolding upperDiagonal_def using assms(1) by (simp add: Let_def)
qed

lemma triangle_sum:
  "k \<le> n \<Longrightarrow> 2 * sum_list (map (\<lambda>row. n - Suc row) [0 ..< k]) + k * (k + 1) = 2 * k * n"
proof (induction k)
  case 0
  then show ?case by simp
next
  case (Suc k)
  then have IH: "2 * sum_list (map (\<lambda>row. n - Suc row) [0 ..< k]) + k * (k + 1) = 2 * k * n"
    by simp
  from Suc.prems obtain d where n: "n = Suc k + d"
    using le_Suc_ex by blast
  show ?case using IH by (simp add: n algebra_simps)
qed

lemma triangle_length:
  "length (concat (map (\<lambda>row. map (\<lambda>col. g row col) [row + 1 ..< n]) [0 ..< n])) = n * (n - 1) div 2"
proof -
  let ?S = "sum_list (map (\<lambda>row. n - Suc row) [0 ..< n])"
  have "length (concat (map (\<lambda>row. map (\<lambda>col. g row col) [row + 1 ..< n]) [0 ..< n])) = ?S"
    by (simp add: length_concat comp_def)
  moreover have "2 * ?S + n * (n + 1) = 2 * n * n"
    by (rule triangle_sum) simp
  then have "2 * ?S = n * (n - 1)"
    by (cases n) (simp_all add: algebra_simps)
  then have "?S = n * (n - 1) div 2" by simp
  ultimately show ?thesis by simp
qed


lemma grid_column:
  assumes "grid m" and "k < length (features m)"
  shows "snd (features m ! k) = map (\<lambda>i. snd (taxa m ! i) ! k) [0 ..< length (taxa m)]"
proof -
  have "map snd (features m) ! k =
       map (\<lambda>j. map (\<lambda>vs. vs ! j) (map snd (taxa m))) [0 ..< length (features m)] ! k"
    using assms(1) by (simp add: grid_def)
  then have "snd (features m ! k) = map (\<lambda>vs. vs ! k) (map snd (taxa m))"
    using assms(2) by simp
  also have "\<dots> = map (\<lambda>i. snd (taxa m ! i) ! k) [0 ..< length (taxa m)]"
    by (intro nth_equalityI) simp_all
  finally show ?thesis .
qed

lemma distanceMatrix_grid:
  assumes "grid m" and "k < length (features m)"
  shows "distanceMatrix m (fst (features m ! k)) logged =
         Inr (map (\<lambda>i. map (\<lambda>j. fsub (if logged then scaled (snd (taxa m ! i) ! k) else snd (taxa m ! i) ! k)
                                      (if logged then scaled (snd (taxa m ! j) ! k) else snd (taxa m ! j) ! k))
                             [0 ..< length (taxa m)])
                  [0 ..< length (taxa m)])"
proof -
  have d: "distinct (keys (features m))" using assms(1) by (simp add: grid_def)
  have g: "getitem (features m) (fst (features m ! k)) = Inr (snd (features m ! k))"
    by (rule getitem_nth [OF d assms(2)])
  show ?thesis
    unfolding distanceMatrix_Inr [OF assms(1) g] grid_column [OF assms]
    by (cases logged) (simp_all add: comp_def)
qed

lemma scaledvalues_grid:
  assumes "grid m" and "k < length (features m)"
  shows "scaledvalues m (fst (features m ! k)) logged =
         Inr (map (\<lambda>i. if logged then scaled (snd (taxa m ! i) ! k) else snd (taxa m ! i) ! k)
                  [0 ..< length (taxa m)])"
proof -
  have d: "distinct (keys (features m))" using assms(1) by (simp add: grid_def)
  have "getitem (features m) (fst (features m ! k)) = Inr (snd (features m ! k))"
    by (rule getitem_nth [OF d assms(2)])
  then show ?thesis
    by (simp add: scaledvalues_def grid_column [OF assms] comp_def)
qed

section \<open>The concrete inputs, evaluated\<close>

lemma strip_simps [simp]:
  "strip '' A'' = ''A''" "strip '' B'' = ''B''" "strip '' C'' = ''C''"
  "strip ''name1'' = ''name1''" "strip ''name2'' = ''name2''" "strip ''name3'' = ''name3''"
  "strip ''name'' = ''name''" "strip ''x'' = ''x''" "strip ''y'' = ''y''"
  by (simp_all add: strip_def isspace_def)

lemma two_taxa_Matrix:
  assumes "pf '' 3'' = Some (Finite 3)" "pf '' 4'' = Some (Finite 4)"
    "pf '' 5'' = Some (Finite 5)" "pf '' 6'' = Some (Finite 6)"
  shows "Matrix pf two_taxa = Inr two_taxa_matrix"
  using assms
  by (simp add: Matrix_def two_taxa_def two_taxa_matrix_def dataRow_def keys_def)

lemma two_taxa_dm:
  "distanceMatrix two_taxa_matrix ''A'' False = Inr [[Finite 0, Finite (- 2)], [Finite 2, Finite 0]]"
  by (simp add: distanceMatrix_def scaledvalues_def getitem_def two_taxa_matrix_def keys_def
      difference_def)

lemma float_lit_two: "Matrix float_lit two_taxa = Inr two_taxa_matrix"
  by (rule two_taxa_Matrix) (simp_all add: float_lit_def)

section \<open>The distance matrix\<close>





lemma infinite_value_Matrix: "Matrix float_lit infinite_value = Inr infinite_value_matrix"
  by (simp add: Matrix_def infinite_value_def infinite_value_matrix_def dataRow_def keys_def
      float_lit_def)

section \<open>The upper diagonal\<close>

text \<open>
  C2. For every successfully constructed matrix with \<open>n\<close> taxa, every declared feature
  and either setting of \<open>logged\<close>, \<open>upperDiagonal\<close> returns the entries of the distance
  matrix strictly above the diagonal, row by row (rows \<open>0\<close> to \<open>n - 1\<close>, and in each row the
  columns \<open>row + 1\<close> to \<open>n - 1\<close>), and their number is \<open>n (n - 1) / 2\<close>.
\<close>

theorem upperDiagonal_row_major:
  assumes "Matrix pfloat rows = Inr m" and "k < length (features m)"
  shows "\<exists>dm ud. distanceMatrix m (fst (features m ! k)) logged = Inr dm \<and>
           upperDiagonal m (fst (features m ! k)) logged = Inr ud \<and>
           ud = concat (map (\<lambda>row. map (\<lambda>col. dm ! row ! col) [row + 1 ..< length (taxa m)])
                            [0 ..< length (taxa m)]) \<and>
           length ud = length (taxa m) * (length (taxa m) - 1) div 2"
proof -
  from Matrix_Inr [OF assms(1)] have g: "grid m" by simp
  let ?n = "length (taxa m)"
  define dm where "dm = map (\<lambda>i. map (\<lambda>j.
       fsub (if logged then scaled (snd (taxa m ! i) ! k) else snd (taxa m ! i) ! k)
            (if logged then scaled (snd (taxa m ! j) ! k) else snd (taxa m ! j) ! k))
       [0 ..< ?n]) [0 ..< ?n]"
  have dm: "distanceMatrix m (fst (features m ! k)) logged = Inr dm"
    unfolding dm_def by (rule distanceMatrix_grid [OF g assms(2)])
  have len: "length dm = ?n" by (simp add: dm_def)
  have rows: "length r = ?n" if "r \<in> set dm" for r
    using that by (auto simp: dm_def)
  let ?ud = "concat (map (\<lambda>row. map (\<lambda>col. dm ! row ! col) [row + 1 ..< ?n]) [0 ..< ?n])"
  have "upperDiagonal m (fst (features m ! k)) logged = Inr ?ud"
    by (rule upperDiagonal_Inr [OF dm len rows])
  moreover have "length ?ud = ?n * (?n - 1) div 2"
    by (rule triangle_length)
  ultimately show ?thesis using dm by blast
qed

theorem upperDiagonal_row_major_witness:
  "Matrix float_lit two_taxa = Inr two_taxa_matrix \<and> 0 < length (features two_taxa_matrix) \<and>
   (\<exists>ud. upperDiagonal two_taxa_matrix ''A'' False = Inr ud \<and> ud = [Finite (- 2)] \<and>
      length ud = 2 * (2 - 1) div 2)"
proof -
  have h1: "Matrix float_lit two_taxa = Inr two_taxa_matrix" by (rule float_lit_two)
  have h2: "0 < length (features two_taxa_matrix)" by (simp add: two_taxa_matrix_def)
  have f: "fst (features two_taxa_matrix ! 0) = ''A''" by (simp add: two_taxa_matrix_def)
  have n: "length (taxa two_taxa_matrix) = 2" by (simp add: two_taxa_matrix_def)
  from upperDiagonal_row_major [OF h1 h2, of False]
  obtain dm ud where dm: "distanceMatrix two_taxa_matrix ''A'' False = Inr dm"
    and ud: "upperDiagonal two_taxa_matrix ''A'' False = Inr ud"
    and eq: "ud = concat (map (\<lambda>row. map (\<lambda>col. dm ! row ! col) [row + 1 ..< 2]) [0 ..< 2])"
    and l: "length ud = 2 * (2 - 1) div 2"
    unfolding f n by blast
  have "[0 ..< 2] = [0, Suc 0]" by (simp add: upt_rec)
  moreover have "[Suc 0 ..< 2] = [Suc 0]" by (simp add: upt_rec)
  moreover have "dm = [[Finite 0, Finite (- 2)], [Finite 2, Finite 0]]"
    using dm two_taxa_dm by simp
  ultimately have "ud = [Finite (- 2)]"
    using eq by simp
  with h1 h2 ud l show ?thesis by blast
qed

section \<open>Logged values\<close>

lemma scaled_cases:
  "0 < r \<Longrightarrow> scaled (Finite r) = Finite (log 10 r)"
  "scaled PInf = PInf"
  "fnonpositive v \<Longrightarrow> scaled v = Finite 0"
  "isfinite v \<Longrightarrow> isfinite (scaled v)"
  by (cases v; simp add: scaled_def)+



section \<open>Antisymmetry and the diagonal\<close>

text \<open>
  C4, as amended. For every successfully constructed matrix, every declared feature, either
  setting of \<open>logged\<close> and all taxa \<open>i\<close> and \<open>j\<close>: entry \<open>[i][j]\<close> of the distance matrix
  equals (Python's \<^verbatim>\<open>==\<close>) the negation of entry \<open>[j][i]\<close> unless it is NaN, which it is
  exactly when one of the two scaled values (the list that lines 71 to 79 compute) is NaN
  or both are the same infinity; and the diagonal entry \<open>[i][i]\<close> equals 0.0 exactly
  when the scaled value of taxon \<open>i\<close> is finite, as it is whenever the raw value is finite.
  The diagonal entry is then the positive zero.
\<close>

theorem distanceMatrix_antisymmetric_unless_nan:
  assumes "Matrix pfloat rows = Inr m" and "k < length (features m)"
    and "i < length (taxa m)" and "j < length (taxa m)"
  shows "\<exists>sv dm. scaledvalues m (fst (features m ! k)) logged = Inr sv \<and>
           distanceMatrix m (fst (features m ! k)) logged = Inr dm \<and>
           (feq (dm ! i ! j) (fneg (dm ! j ! i)) \<longleftrightarrow> \<not> isnan (dm ! i ! j)) \<and>
           (isnan (dm ! i ! j) \<longleftrightarrow>
              isnan (sv ! i) \<or> isnan (sv ! j) \<or> (sv ! i = PInf \<and> sv ! j = PInf) \<or>
              (sv ! i = NInf \<and> sv ! j = NInf)) \<and>
           (feq (dm ! i ! i) (Finite 0) \<longleftrightarrow> isfinite (sv ! i)) \<and>
           (isfinite (sv ! i) \<longrightarrow> dm ! i ! i = Finite 0) \<and>
           (isfinite (snd (taxa m ! i) ! k) \<longrightarrow> isfinite (sv ! i))"
proof -
  from Matrix_Inr [OF assms(1)] have g: "grid m" by simp
  define s where "s = (\<lambda>i. if logged then scaled (snd (taxa m ! i) ! k) else snd (taxa m ! i) ! k)"
  define sv where "sv = map s [0 ..< length (taxa m)]"
  define dm where
    "dm = map (\<lambda>i. map (\<lambda>j. fsub (s i) (s j)) [0 ..< length (taxa m)]) [0 ..< length (taxa m)]"
  have sv: "scaledvalues m (fst (features m ! k)) logged = Inr sv"
    unfolding sv_def s_def by (rule scaledvalues_grid [OF g assms(2)])
  have dm: "distanceMatrix m (fst (features m ! k)) logged = Inr dm"
    unfolding dm_def s_def by (rule distanceMatrix_grid [OF g assms(2)])
  have si: "sv ! i = s i" and sj: "sv ! j = s j"
    using assms(3,4) by (simp_all add: sv_def)
  have ij: "dm ! i ! j = fsub (s i) (s j)" and ji: "dm ! j ! i = fsub (s j) (s i)"
    and ii: "dm ! i ! i = fsub (s i) (s i)"
    using assms(3,4) by (simp_all add: dm_def)
  have "feq (dm ! i ! j) (fneg (dm ! j ! i)) \<longleftrightarrow> \<not> isnan (dm ! i ! j)"
    unfolding ij ji by (rule fsub_sym)
  moreover have "isnan (dm ! i ! j) \<longleftrightarrow>
      isnan (sv ! i) \<or> isnan (sv ! j) \<or> (sv ! i = PInf \<and> sv ! j = PInf) \<or>
      (sv ! i = NInf \<and> sv ! j = NInf)"
    unfolding ij si sj by (rule fsub_nan)
  moreover have "feq (dm ! i ! i) (Finite 0) \<longleftrightarrow> isfinite (sv ! i)"
    unfolding ii si by (rule fsub_self_zero)
  moreover have "isfinite (sv ! i) \<longrightarrow> dm ! i ! i = Finite 0"
    unfolding ii si by (simp add: fsub_self)
  moreover have "isfinite (snd (taxa m ! i) ! k) \<longrightarrow> isfinite (sv ! i)"
    unfolding si by (simp add: s_def scaled_cases)
  ultimately show ?thesis using sv dm by blast
qed

theorem distanceMatrix_antisymmetric_unless_nan_witness:
  "Matrix float_lit two_taxa = Inr two_taxa_matrix \<and> 0 < length (features two_taxa_matrix) \<and>
   0 < length (taxa two_taxa_matrix) \<and> 1 < length (taxa two_taxa_matrix) \<and>
   isfinite (snd (taxa two_taxa_matrix ! 0) ! 0) \<and>
   (\<exists>sv dm. scaledvalues two_taxa_matrix ''A'' False = Inr sv \<and>
      distanceMatrix two_taxa_matrix ''A'' False = Inr dm \<and> isfinite (sv ! 0) \<and>
      feq (dm ! 0 ! 1) (fneg (dm ! 1 ! 0)) \<and> \<not> isnan (dm ! 0 ! 1) \<and>
      dm ! 0 ! 0 = Finite 0 \<and> feq (dm ! 0 ! 0) (Finite 0))"
proof -
  have h1: "Matrix float_lit two_taxa = Inr two_taxa_matrix" by (rule float_lit_two)
  have h2: "0 < length (features two_taxa_matrix)" by (simp add: two_taxa_matrix_def)
  have h3: "0 < length (taxa two_taxa_matrix)" by (simp add: two_taxa_matrix_def)
  have h4: "1 < length (taxa two_taxa_matrix)" by (simp add: two_taxa_matrix_def)
  have h5: "isfinite (snd (taxa two_taxa_matrix ! 0) ! 0)" by (simp add: two_taxa_matrix_def)
  have f: "fst (features two_taxa_matrix ! 0) = ''A''" by (simp add: two_taxa_matrix_def)
  from distanceMatrix_antisymmetric_unless_nan [OF h1 h2 h3 h4, of False]
  obtain sv dm where sv: "scaledvalues two_taxa_matrix ''A'' False = Inr sv"
    and dm: "distanceMatrix two_taxa_matrix ''A'' False = Inr dm"
    and a: "feq (dm ! 0 ! 1) (fneg (dm ! 1 ! 0)) \<longleftrightarrow> \<not> isnan (dm ! 0 ! 1)"
    and c: "feq (dm ! 0 ! 0) (Finite 0) \<longleftrightarrow> isfinite (sv ! 0)"
    and d: "isfinite (sv ! 0) \<longrightarrow> dm ! 0 ! 0 = Finite 0"
    and e: "isfinite (snd (taxa two_taxa_matrix ! 0) ! 0) \<longrightarrow> isfinite (sv ! 0)"
    unfolding f by blast
  from e h5 have fin: "isfinite (sv ! 0)" by simp
  have "dm = [[Finite 0, Finite (- 2)], [Finite 2, Finite 0]]"
    using dm two_taxa_dm by simp
  then have "\<not> isnan (dm ! 0 ! 1)" by simp
  with a c d fin sv dm h1 h2 h3 h4 h5 show ?thesis by blast
qed

text \<open>
  C4 as stated fails for a value that is not finite: \<^verbatim>\<open>float\<close> reads the cell
  \<^verbatim>\<open>inf\<close> as infinity, and the diagonal entry, infinity minus infinity, is NaN.
\<close>

theorem distanceMatrix_diagonal_counterexample:
  "Matrix float_lit infinite_value = Inr infinite_value_matrix \<and>
   distanceMatrix infinite_value_matrix ''A'' False = Inr [[NaN]] \<and>
   distanceMatrix infinite_value_matrix ''A'' True = Inr [[NaN]] \<and>
   NaN \<noteq> Finite 0 \<and> \<not> feq NaN (Finite 0) \<and> \<not> feq NaN (fneg NaN)"
  using infinite_value_Matrix
  by (simp add: distanceMatrix_def scaledvalues_def getitem_def infinite_value_matrix_def keys_def
      difference_def scaled_def)

lemma three_taxa_Matrix: "Matrix float_lit three_taxa = Inr three_taxa_matrix"
  by (simp add: Matrix_def three_taxa_def three_taxa_matrix_def dataRow_def keys_def float_lit_def)

lemma upt_3: "[0 ..< 3] = [0, 1, 2]" "[Suc 0 ..< 3] = [1, 2]" "[Suc (Suc 0) ..< 3] = [2]"
  "[0 ..< 2] = [0, 1]" "[Suc 0 ..< 2] = [1]" "[2 ..< 3] = [2]" "[1 ..< 3] = [1, 2]" "[1 ..< 2] = [1]"
  by (simp_all add: upt_rec)

lemma three_taxa_upperDiagonal:
  "upperDiagonal three_taxa_matrix ''A'' False = Inr [Finite (- 2), Finite (- 4), Finite (- 2)]"
  "upperDiagonal three_taxa_matrix ''B'' False = Inr [Finite (- 3), Finite (- 5), Finite (- 2)]"
  by (simp_all add: upperDiagonal_def distanceMatrix_def scaledvalues_def getitem_def
      three_taxa_matrix_def keys_def difference_def entry_def item_def upt_3)

section \<open>The two views of the grid\<close>

text \<open>
  C9. For every successfully constructed matrix, the value list of every taxon has one
  entry per declared feature and the value list of every feature has one entry per taxon;
  the \<open>k\<close>-th value of the \<open>i\<close>-th taxon is the \<open>i\<close>-th value of the \<open>k\<close>-th feature. The
  order is that of the input: the features are the stripped header cells after the first,
  the taxa are the stripped first cells of the data rows, and the \<open>k\<close>-th value of the
  \<open>i\<close>-th taxon is what \<open>float\<close> reads in cell \<open>k + 1\<close> of data row \<open>i\<close>.
\<close>

theorem two_views_one_grid:
  assumes "Matrix pfloat rows = Inr m"
  shows "(\<forall>i < length (taxa m). length (snd (taxa m ! i)) = length (features m)) \<and>
         (\<forall>k < length (features m). length (snd (features m ! k)) = length (taxa m)) \<and>
         (\<forall>i < length (taxa m). \<forall>k < length (features m).
            snd (taxa m ! i) ! k = snd (features m ! k) ! i) \<and>
         (\<exists>hdr drows. rows = hdr # drows \<and>
            keys (features m) = map strip (drop 1 hdr) \<and>
            keys (taxa m) = map (\<lambda>r. strip (hd r)) drows \<and>
            (\<forall>i < length drows. \<forall>k < length (features m).
               pfloat (drows ! i ! Suc k) = Some (snd (taxa m ! i) ! k)))"
proof -
  from Matrix_Inr [OF assms] obtain hdr drows where g: "grid m"
    and rows: "rows = hdr # drows" and kf: "keys (features m) = map strip (drop 1 hdr)"
    and t: "taxa m = map (taxon_of pfloat) drows"
    and ok: "\<forall>r \<in> set drows. length r = Suc (length (features m)) \<and>
               (\<forall>c \<in> set (tl r). pfloat c \<noteq> None)"
    by blast
  have a: "\<forall>i < length (taxa m). length (snd (taxa m ! i)) = length (features m)"
    using g by (simp add: grid_def)
  have b: "\<forall>k < length (features m). length (snd (features m ! k)) = length (taxa m)"
    using grid_column [OF g] by simp
  have c: "\<forall>i < length (taxa m). \<forall>k < length (features m).
            snd (taxa m ! i) ! k = snd (features m ! k) ! i"
    using grid_column [OF g] by simp
  have kt: "keys (taxa m) = map (\<lambda>r. strip (hd r)) drows"
    by (simp add: t keys_def taxon_of_def comp_def)
  have d: "pfloat (drows ! i ! Suc k) = Some (snd (taxa m ! i) ! k)"
    if "i < length drows" "k < length (features m)" for i k
  proof -
    let ?r = "drows ! i"
    have r: "?r \<in> set drows" using that(1) by simp
    with ok have len: "length ?r = Suc (length (features m))"
      and p: "\<forall>c \<in> set (tl ?r). pfloat c \<noteq> None" by auto
    have k: "k < length (tl ?r)" using len that(2) by simp
    then have "tl ?r ! k \<in> set (tl ?r)" by (rule nth_mem)
    with p obtain v where v: "pfloat (tl ?r ! k) = Some v" by auto
    have "snd (taxa m ! i) ! k = the (pfloat (tl ?r ! k))"
      using that(1) k by (simp add: t taxon_of_def)
    moreover have "tl ?r ! k = ?r ! Suc k" using k by (simp add: nth_tl)
    ultimately show ?thesis using v by simp
  qed
  show ?thesis using a b c rows kf kt d by blast
qed

theorem two_views_one_grid_witness:
  "Matrix float_lit two_taxa = Inr two_taxa_matrix \<and>
   length (snd (taxa two_taxa_matrix ! 1)) = length (features two_taxa_matrix) \<and>
   length (snd (features two_taxa_matrix ! 0)) = length (taxa two_taxa_matrix) \<and>
   snd (taxa two_taxa_matrix ! 1) ! 0 = snd (features two_taxa_matrix ! 0) ! 1 \<and>
   keys (features two_taxa_matrix) = [''A'', ''B''] \<and>
   keys (taxa two_taxa_matrix) = [''name1'', ''name2'']"
proof -
  have h: "Matrix float_lit two_taxa = Inr two_taxa_matrix" by (rule float_lit_two)
  have "1 < length (taxa two_taxa_matrix)" "0 < length (features two_taxa_matrix)"
    by (simp_all add: two_taxa_matrix_def)
  with two_views_one_grid [OF h]
  have "length (snd (taxa two_taxa_matrix ! 1)) = length (features two_taxa_matrix)"
    "length (snd (features two_taxa_matrix ! 0)) = length (taxa two_taxa_matrix)"
    "snd (taxa two_taxa_matrix ! 1) ! 0 = snd (features two_taxa_matrix ! 0) ! 1"
    by blast+
  moreover have "keys (features two_taxa_matrix) = [''A'', ''B'']"
    "keys (taxa two_taxa_matrix) = [''name1'', ''name2'']"
    by (simp_all add: two_taxa_matrix_def keys_def)
  ultimately show ?thesis using h by blast
qed

section \<open>Failures of the queries\<close>

lemma upperDiagonal_grid:
  assumes "grid m" and "k < length (features m)"
  shows "\<exists>ud. upperDiagonal m (fst (features m ! k)) logged = Inr ud"
proof -
  let ?n = "length (taxa m)"
  define dm where "dm = map (\<lambda>i. map (\<lambda>j.
       fsub (if logged then scaled (snd (taxa m ! i) ! k) else snd (taxa m ! i) ! k)
            (if logged then scaled (snd (taxa m ! j) ! k) else snd (taxa m ! j) ! k))
       [0 ..< ?n]) [0 ..< ?n]"
  have dm: "distanceMatrix m (fst (features m ! k)) logged = Inr dm"
    unfolding dm_def by (rule distanceMatrix_grid [OF assms])
  have len: "length dm = ?n" by (simp add: dm_def)
  have rows: "length r = ?n" if "r \<in> set dm" for r
    using that by (auto simp: dm_def)
  from upperDiagonal_Inr [OF dm len rows] show ?thesis by blast
qed

lemma declared_feature:
  assumes "f \<in> set (keys d)"
  shows "\<exists>k < length d. f = fst (d ! k)"
proof -
  from assms obtain k where "k < length (map fst d)" "map fst d ! k = f"
    unfolding keys_def in_set_conv_nth by blast
  then show ?thesis by auto
qed

lemma unknown_feature:
  assumes "f \<notin> set (keys (features m))"
  shows "distanceMatrix m f logged = Inl (KeyError f)"
    and "upperDiagonal m f logged = Inl (KeyError f)"
    and "upperDiagonalAsXML pstr m f e logged = Inl (KeyError f)"
proof -
  show dm: "distanceMatrix m f logged = Inl (KeyError f)"
    by (simp add: distanceMatrix_def scaledvalues_def getitem_missing [OF assms])
  then show ud: "upperDiagonal m f logged = Inl (KeyError f)"
    by (simp add: upperDiagonal_def)
  then show "upperDiagonalAsXML pstr m f e logged = Inl (KeyError f)"
    by (simp add: upperDiagonalAsXML_def)
qed

lemma featureLoop_Inr:
  "(\<And>f. f \<in> set fs \<Longrightarrow> upperDiagonalAsXML pstr m f ''feature'' logged = Inr (g f)) \<Longrightarrow>
   featureLoop pstr m logged fs result = Inr (result @ concat (map (\<lambda>f. [Comment f, g f]) fs))"
  by (induction fs arbitrary: result) auto

lemma allFeaturesAsXML_grid:
  assumes "grid m"
  shows "\<exists>uds. length uds = length (features m) \<and>
           (\<forall>k < length (features m).
              upperDiagonal m (fst (features m ! k)) logged = Inr (uds ! k)) \<and>
           allFeaturesAsXML pstr m elementName logged =
             Inr (Element elementName None
                    (concat (map (\<lambda>k. [Comment (fst (features m ! k)),
                                        Element ''feature'' None
                                          (map (\<lambda>v. Element ''value'' (Some (pstr v)) []) (uds ! k))])
                                 [0 ..< length (features m)])))"
proof -
  let ?n = "length (features m)"
  have "\<forall>k < ?n. \<exists>ud. upperDiagonal m (fst (features m ! k)) logged = Inr ud"
    using upperDiagonal_grid [OF assms] by blast
  then obtain u where u: "\<And>k. k < ?n \<Longrightarrow> upperDiagonal m (fst (features m ! k)) logged = Inr (u k)"
    by metis
  define uds where "uds = map u [0 ..< ?n]"
  define g where "g = (\<lambda>f. case upperDiagonal m f logged of
      Inr ud \<Rightarrow> Element ''feature'' None (map (\<lambda>v. Element ''value'' (Some (pstr v)) []) ud))"
  have each: "upperDiagonalAsXML pstr m f ''feature'' logged = Inr (g f)"
    if "f \<in> set (keys (features m))" for f
  proof -
    from declared_feature [OF that] obtain k where "k < ?n" "f = fst (features m ! k)" by blast
    with u show ?thesis by (simp add: upperDiagonalAsXML_def g_def comp_def)
  qed
  have loop: "featureLoop pstr m logged (keys (features m)) [] =
      Inr ([] @ concat (map (\<lambda>f. [Comment f, g f]) (keys (features m))))"
    by (rule featureLoop_Inr) (rule each)
  have "map (\<lambda>f. [Comment f, g f]) (keys (features m)) =
        map (\<lambda>k. [Comment (fst (features m ! k)),
                   Element ''feature'' None
                     (map (\<lambda>v. Element ''value'' (Some (pstr v)) []) (uds ! k))]) [0 ..< ?n]"
    using u by (intro nth_equalityI) (simp_all add: keys_def g_def uds_def)
  with loop have "allFeaturesAsXML pstr m elementName logged =
             Inr (Element elementName None
                    (concat (map (\<lambda>k. [Comment (fst (features m ! k)),
                                        Element ''feature'' None
                                          (map (\<lambda>v. Element ''value'' (Some (pstr v)) []) (uds ! k))])
                                 [0 ..< ?n])))"
    by (simp add: allFeaturesAsXML_def)
  moreover have "length uds = ?n" by (simp add: uds_def)
  moreover have "\<forall>k < ?n. upperDiagonal m (fst (features m ! k)) logged = Inr (uds ! k)"
    using u by (simp add: uds_def)
  ultimately show ?thesis by blast
qed

text \<open>
  C7. On every successfully constructed matrix, each of \<open>distanceMatrix\<close>,
  \<open>upperDiagonal\<close> and \<open>upperDiagonalAsXML\<close> fails if and only if the given feature name is
  not a declared feature, and then with the \<^verbatim>\<open>KeyError\<close> that carries that name;
  \<open>allFeaturesAsXML\<close> does not fail, whatever the element name and \<open>logged\<close>.
\<close>

theorem queries_fail_on_unknown_feature_only:
  assumes "Matrix pfloat rows = Inr m"
  shows "(isl (distanceMatrix m f logged) \<longleftrightarrow> f \<notin> set (keys (features m))) \<and>
         (isl (upperDiagonal m f logged) \<longleftrightarrow> f \<notin> set (keys (features m))) \<and>
         (isl (upperDiagonalAsXML pstr m f elementName logged) \<longleftrightarrow> f \<notin> set (keys (features m))) \<and>
         (f \<notin> set (keys (features m)) \<longrightarrow>
            distanceMatrix m f logged = Inl (KeyError f) \<and>
            upperDiagonal m f logged = Inl (KeyError f) \<and>
            upperDiagonalAsXML pstr m f elementName logged = Inl (KeyError f)) \<and>
         \<not> isl (allFeaturesAsXML pstr m elementName logged)"
proof -
  from Matrix_Inr [OF assms] have g: "grid m" by simp
  have known: "\<not> isl (distanceMatrix m f logged) \<and> \<not> isl (upperDiagonal m f logged) \<and>
      \<not> isl (upperDiagonalAsXML pstr m f elementName logged)"
    if "f \<in> set (keys (features m))"
  proof -
    from declared_feature [OF that] obtain k where k: "k < length (features m)"
      and f: "f = fst (features m ! k)" by blast
    from upperDiagonal_grid [OF g k, of logged] obtain ud where
      "upperDiagonal m f logged = Inr ud" unfolding f by blast
    then show ?thesis
      using distanceMatrix_grid [OF g k, of logged]
      by (simp add: f upperDiagonalAsXML_def)
  qed
  have "\<not> isl (allFeaturesAsXML pstr m elementName logged)"
    using allFeaturesAsXML_grid [OF g, of logged pstr elementName] by auto
  then show ?thesis
    using known unknown_feature by auto
qed

theorem queries_fail_on_unknown_feature_only_witness:
  "Matrix float_lit two_taxa = Inr two_taxa_matrix \<and>
   ''XXX'' \<notin> set (keys (features two_taxa_matrix)) \<and>
   distanceMatrix two_taxa_matrix ''XXX'' True = Inl (KeyError ''XXX'') \<and>
   upperDiagonal two_taxa_matrix ''XXX'' True = Inl (KeyError ''XXX'') \<and>
   upperDiagonalAsXML str_lit two_taxa_matrix ''XXX'' ''xxx'' True = Inl (KeyError ''XXX'') \<and>
   ''A'' \<in> set (keys (features two_taxa_matrix)) \<and>
   \<not> isl (distanceMatrix two_taxa_matrix ''A'' True) \<and>
   \<not> isl (allFeaturesAsXML str_lit two_taxa_matrix ''xxx'' True)"
proof -
  have h: "Matrix float_lit two_taxa = Inr two_taxa_matrix" by (rule float_lit_two)
  have x: "''XXX'' \<notin> set (keys (features two_taxa_matrix))"
    and a: "''A'' \<in> set (keys (features two_taxa_matrix))"
    by (simp_all add: two_taxa_matrix_def keys_def)
  from queries_fail_on_unknown_feature_only [OF h, of "''XXX''" True str_lit "''xxx''"] x
  have "distanceMatrix two_taxa_matrix ''XXX'' True = Inl (KeyError ''XXX'') \<and>
   upperDiagonal two_taxa_matrix ''XXX'' True = Inl (KeyError ''XXX'') \<and>
   upperDiagonalAsXML str_lit two_taxa_matrix ''XXX'' ''xxx'' True = Inl (KeyError ''XXX'') \<and>
   \<not> isl (allFeaturesAsXML str_lit two_taxa_matrix ''xxx'' True)"
    by blast
  moreover from queries_fail_on_unknown_feature_only [OF h, of "''A''" True str_lit "''xxx''"] a
  have "\<not> isl (distanceMatrix two_taxa_matrix ''A'' True)" by blast
  ultimately show ?thesis using h x a by blast
qed

section \<open>The XML of all features\<close>

text \<open>
  The text of a value keeps the sign of a zero: negative zero minus positive zero is
  negative zero, positive zero minus positive zero is positive zero.
\<close>

lemma zeros_Matrix: "Matrix float_lit zeros = Inr zeros_matrix"
  by (simp add: Matrix_def zeros_def zeros_matrix_def dataRow_def keys_def float_lit_def)

lemma zeros_upperDiagonal:
  "upperDiagonal zeros_matrix ''A'' False = Inr [NegZero, NegZero, Finite 0]"
  by (simp add: upperDiagonal_def distanceMatrix_def scaledvalues_def getitem_def
      zeros_matrix_def keys_def difference_def entry_def item_def upt_3)

lemma zeros_xml:
  "allFeaturesAsXML str_lit zeros_matrix ''xxx'' False =
     Inr (Element ''xxx'' None
       [Comment ''A'',
        Element ''feature'' None
          [Element ''value'' (Some ''-0.0'') [], Element ''value'' (Some ''-0.0'') [],
           Element ''value'' (Some ''0.0'') []]])"
  by (simp add: allFeaturesAsXML_def upperDiagonalAsXML_def zeros_upperDiagonal str_lit_def
      keys_def zeros_matrix_def [THEN arg_cong [where f = features]])

text \<open>
  C8. For every successfully constructed matrix, \<open>allFeaturesAsXML\<close> returns an element
  with the given name whose children are, for each declared feature in the order of
  declaration, a comment with the name of the feature and then an element \<open>feature\<close>; the
  children of that element are, in order, one element \<open>value\<close> per entry of the upper
  diagonal of the feature, with the string of the entry as its text.
\<close>

theorem allFeaturesAsXML_tree:
  assumes "Matrix pfloat rows = Inr m"
  shows "\<exists>uds. length uds = length (features m) \<and>
           (\<forall>k < length (features m).
              upperDiagonal m (fst (features m ! k)) logged = Inr (uds ! k)) \<and>
           allFeaturesAsXML pstr m elementName logged =
             Inr (Element elementName None
                    (concat (map (\<lambda>k. [Comment (fst (features m ! k)),
                                        Element ''feature'' None
                                          (map (\<lambda>v. Element ''value'' (Some (pstr v)) []) (uds ! k))])
                                 [0 ..< length (features m)])))"
proof -
  from Matrix_Inr [OF assms] have "grid m" by simp
  then show ?thesis by (rule allFeaturesAsXML_grid)
qed

theorem allFeaturesAsXML_tree_witness:
  "Matrix float_lit three_taxa = Inr three_taxa_matrix \<and>
   allFeaturesAsXML str_lit three_taxa_matrix ''xxx'' False =
     Inr (Element ''xxx'' None
       [Comment ''A'',
        Element ''feature'' None
          [Element ''value'' (Some ''-2.0'') [], Element ''value'' (Some ''-4.0'') [],
           Element ''value'' (Some ''-2.0'') []],
        Comment ''B'',
        Element ''feature'' None
          [Element ''value'' (Some ''-3.0'') [], Element ''value'' (Some ''-5.0'') [],
           Element ''value'' (Some ''-2.0'') []]]) \<and>
   Matrix float_lit zeros = Inr zeros_matrix \<and>
   allFeaturesAsXML str_lit zeros_matrix ''xxx'' False =
     Inr (Element ''xxx'' None
       [Comment ''A'',
        Element ''feature'' None
          [Element ''value'' (Some ''-0.0'') [], Element ''value'' (Some ''-0.0'') [],
           Element ''value'' (Some ''0.0'') []]])"
proof -
  have h: "Matrix float_lit three_taxa = Inr three_taxa_matrix" by (rule three_taxa_Matrix)
  have n: "length (features three_taxa_matrix) = 2"
    and f0: "fst (features three_taxa_matrix ! 0) = ''A''"
    and f1: "fst (features three_taxa_matrix ! Suc 0) = ''B''"
    by (simp_all add: three_taxa_matrix_def)
  from allFeaturesAsXML_tree [OF h, of False str_lit "''xxx''"] obtain uds where
    u: "\<forall>k < 2. upperDiagonal three_taxa_matrix (fst (features three_taxa_matrix ! k)) False = Inr (uds ! k)"
    and x: "allFeaturesAsXML str_lit three_taxa_matrix ''xxx'' False =
             Inr (Element ''xxx'' None
                    (concat (map (\<lambda>k. [Comment (fst (features three_taxa_matrix ! k)),
                                        Element ''feature'' None
                                          (map (\<lambda>v. Element ''value'' (Some (str_lit v)) []) (uds ! k))])
                                 [0 ..< 2])))"
    unfolding n by blast
  from u have "upperDiagonal three_taxa_matrix (fst (features three_taxa_matrix ! 0)) False = Inr (uds ! 0)"
    "upperDiagonal three_taxa_matrix (fst (features three_taxa_matrix ! Suc 0)) False = Inr (uds ! Suc 0)"
    by simp_all
  then have u0: "uds ! 0 = [Finite (- 2), Finite (- 4), Finite (- 2)]"
    and u1: "uds ! Suc 0 = [Finite (- 3), Finite (- 5), Finite (- 2)]"
    unfolding f0 f1 three_taxa_upperDiagonal by simp_all
  have "allFeaturesAsXML str_lit three_taxa_matrix ''xxx'' False =
     Inr (Element ''xxx'' None
       [Comment ''A'',
        Element ''feature'' None
          [Element ''value'' (Some ''-2.0'') [], Element ''value'' (Some ''-4.0'') [],
           Element ''value'' (Some ''-2.0'') []],
        Comment ''B'',
        Element ''feature'' None
          [Element ''value'' (Some ''-3.0'') [], Element ''value'' (Some ''-5.0'') [],
           Element ''value'' (Some ''-2.0'') []]])"
    using x by (simp add: upt_3 u0 u1 f0 f1 str_lit_def)
  with h zeros_Matrix zeros_xml show ?thesis by blast
qed

section \<open>Errors of the construction\<close>

lemma readRows_append:
  "readRows pfloat row (xs @ ys) s =
     (case readRows pfloat row xs s of
        Inl e \<Rightarrow> Inl e
      | Inr s' \<Rightarrow> readRows pfloat (row + length xs) ys s')"
proof (induction xs arbitrary: row s)
  case Nil
  then show ?case by simp
next
  case (Cons x xs)
  obtain m n where s: "s = (m, n)" by (cases s)
  show ?case
  proof (cases "row = 1")
    case True
    show ?thesis
      unfolding s True
      by (cases "addFeatures (map strip (drop 1 x)) (features m)")
        (simp_all add: Cons.IH cong: sum.case_cong)
  next
    case False
    then show ?thesis
      unfolding s by (cases "dataRow pfloat row n x m") (simp_all add: Cons.IH cong: sum.case_cong)
  qed
qed

lemma readRows_header:
  assumes "readRows pfloat 1 (hdr # pre) (\<lparr>taxa = [], features = []\<rparr>, 0) = Inr (m, n)"
  shows "grid m \<and> n = length (features m) \<and> keys (features m) = map strip (drop 1 hdr) \<and>
         taxa m = map (taxon_of pfloat) pre \<and> (\<forall>r \<in> set pre. length r = Suc n)"
proof -
  let ?m0 = "\<lparr>taxa = [], features = []\<rparr>"
  from assms obtain fs where af: "addFeatures (map strip (drop 1 hdr)) [] = Inr fs"
    and rest: "readRows pfloat (Suc (Suc 0)) pre (?m0\<lparr>features := fs\<rparr>, length fs) = Inr (m, n)"
    by (auto split: sum.splits)
  from af have fs: "fs = map (\<lambda>n. (n, [])) (map strip (drop 1 hdr))"
    and dn: "distinct (map strip (drop 1 hdr))"
    by (simp_all add: addFeatures_Inr)
  let ?m1 = "?m0\<lparr>features := fs\<rparr>"
  have g1: "grid ?m1"
    using dn by (simp add: grid_def keys_def fs comp_def map_replicate_const)
  have run: "readRows pfloat (Suc (Suc 0)) pre (?m1, length (features ?m1)) = Inr (m, n)"
    using rest by simp
  have k1: "keys (features ?m1) = map strip (drop 1 hdr)"
    by (simp add: keys_def fs comp_def)
  have r: "grid m \<and> keys (features m) = keys (features ?m1) \<and> n = length (features ?m1) \<and>
         taxa m = taxa ?m1 @ map (taxon_of pfloat) pre \<and>
         (\<forall>r \<in> set pre. length r = Suc (length (features ?m1)) \<and> (\<forall>c \<in> set (tl r). pfloat c \<noteq> None))"
    by (rule grid_readRows [OF run _ g1]) simp
  then have "length (features m) = length (features ?m1)"
    unfolding keys_def by (metis length_map)
  with r show ?thesis using k1 by simp
qed

lemma readRows_no_features:
  assumes "features m = []" and "1 < row" and "\<forall>r \<in> set drows. length r = 1"
    and "distinct (map (\<lambda>r. strip (hd r)) drows)"
    and "set (map (\<lambda>r. strip (hd r)) drows) \<inter> set (keys (taxa m)) = {}"
  shows "readRows pfloat row drows (m, 0) =
         Inr (m\<lparr>taxa := taxa m @ map (\<lambda>r. (strip (hd r), [])) drows\<rparr>, 0)"
  using assms
proof (induction drows arbitrary: row m)
  case Nil
  then show ?case by simp
next
  case (Cons r drows)
  from Cons.prems(3) obtain name where r: "r = [name]"
    by (cases r) auto
  let ?m = "m\<lparr>taxa := taxa m @ [(strip name, [])]\<rparr>"
  have new: "strip name \<notin> set (keys (taxa m))" using Cons.prems(5) by (simp add: r)
  have row: "dataRow pfloat row 0 r m = Inr ?m"
    using new Cons.prems(1) by (simp add: dataRow_def r keys_def)
  have "readRows pfloat (row + 1) drows (?m, 0) =
         Inr (?m\<lparr>taxa := taxa ?m @ map (\<lambda>r. (strip (hd r), [])) drows\<rparr>, 0)"
    apply (rule Cons.IH)
    using Cons.prems by (auto simp: r keys_def)
  then show ?case using row Cons.prems(2) by (simp add: r)
qed

lemma append_at_KeyError: "append_at k v d = Inl e \<Longrightarrow> e = KeyError k"
  by (induction d) (auto split: if_splits sum.splits)

lemma append_at_error: "append_at k v d \<noteq> Inl NoInput" "append_at k v d \<noteq> Inl NoTaxa"
  using append_at_KeyError [of k v d] by auto

lemma appendValues_error:
  "appendValues pfloat name ps m = Inl e \<Longrightarrow> e \<noteq> NoInput \<and> e \<noteq> NoTaxa"
  by (induction ps arbitrary: m) (auto split: option.splits sum.splits simp: append_at_error)

lemma addFeatures_error: "addFeatures ns fs = Inl e \<Longrightarrow> e \<noteq> NoInput \<and> e \<noteq> NoTaxa"
  by (induction ns arbitrary: fs) (auto split: if_splits)

lemma dataRow_error: "dataRow pfloat row n flds m = Inl e \<Longrightarrow> e \<noteq> NoInput \<and> e \<noteq> NoTaxa"
  by (auto simp: dataRow_def Let_def split: if_splits list.splits dest: appendValues_error)

lemma readRows_error: "readRows pfloat row rows s = Inl e \<Longrightarrow> e \<noteq> NoInput \<and> e \<noteq> NoTaxa"
proof (induction rows arbitrary: row s)
  case Nil
  then show ?case by simp
next
  case (Cons r rows)
  obtain m n where s: "s = (m, n)" by (cases s)
  show ?case
  proof (cases "row = 1")
    case True
    show ?thesis
    proof (cases "addFeatures (map strip (drop 1 r)) (features m)")
      case (Inl e')
      with Cons.prems True show ?thesis
        unfolding s by (auto dest: addFeatures_error)
    next
      case (Inr fs)
      with Cons.prems True
      have "readRows pfloat (row + 1) rows (m\<lparr>features := fs\<rparr>, length fs) = Inl e"
        unfolding s by simp
      then show ?thesis by (rule Cons.IH)
    qed
  next
    case False
    show ?thesis
    proof (cases "dataRow pfloat row n r m")
      case (Inl e')
      with Cons.prems False show ?thesis
        unfolding s by (auto dest: dataRow_error)
    next
      case (Inr m')
      with Cons.prems False
      have "readRows pfloat (row + 1) rows (m', n) = Inl e"
        unfolding s by simp
      then show ?thesis by (rule Cons.IH)
    qed
  qed
qed

lemma str_small:
  "str_nat 2 = ''2''" "str_nat 3 = ''3''" "str_nat 4 = ''4''" "str_int 4 = ''4''"
  by code_simp+

lemma header_only:
  assumes "drop 1 hdr \<noteq> []" and "distinct (map strip (drop 1 hdr))"
  shows "Matrix pfloat [hdr] = Inl NoTaxa"
proof -
  have "addFeatures (map strip (drop 1 hdr)) [] = Inr (map (\<lambda>n. (n, [])) (map strip (drop 1 hdr)))"
    using assms(2) by (simp add: addFeatures_Inr keys_def)
  then show ?thesis using assms(1) by (simp add: Matrix_def)
qed

text \<open>
  C5. Construction fails with the \<^verbatim>\<open>ValueError\<close> \<^verbatim>\<open>No input CSV data found.\<close>
  whenever no feature is declared once all rows are read, in particular on the empty input;
  it fails with \<^verbatim>\<open>No taxa (rows) found in input CSV.\<close> whenever features are declared
  and no taxon was read, in particular when the header is the only row, as for
  \<^verbatim>\<open>A, B, C\<close>.
\<close>

theorem no_features_no_taxa:
  "Matrix pfloat [] = Inl NoInput \<and>
   (readRows pfloat 1 rows (\<lparr>taxa = [], features = []\<rparr>, 0) = Inr (m, n) \<and> features m = [] \<longrightarrow>
      Matrix pfloat rows = Inl NoInput) \<and>
   (readRows pfloat 1 rows (\<lparr>taxa = [], features = []\<rparr>, 0) = Inr (m, n) \<and> features m \<noteq> [] \<and>
    taxa m = [] \<longrightarrow> Matrix pfloat rows = Inl NoTaxa) \<and>
   (drop 1 hdr \<noteq> [] \<and> distinct (map strip (drop 1 hdr)) \<longrightarrow> Matrix pfloat [hdr] = Inl NoTaxa) \<and>
   Matrix pfloat [[''A'', '' B'', '' C'']] = Inl NoTaxa \<and>
   message repr NoInput = ''No input CSV data found.'' \<and>
   message repr NoTaxa = ''No taxa (rows) found in input CSV.''"
proof -
  have "Matrix pfloat [[''A'', '' B'', '' C'']] = Inl NoTaxa"
    by (rule header_only) simp_all
  then show ?thesis
    using header_only [of hdr pfloat] by (simp add: Matrix_def)
qed

theorem no_features_no_taxa_witness:
  "readRows float_lit 1 [[''Ignored'']] (\<lparr>taxa = [], features = []\<rparr>, 0) =
     Inr (\<lparr>taxa = [], features = []\<rparr>, 0) \<and>
   features \<lparr>taxa = [], features = []\<rparr> = [] \<and>
   Matrix float_lit [[''Ignored'']] = Inl NoInput \<and>
   readRows float_lit 1 [[''A'', '' B'', '' C'']] (\<lparr>taxa = [], features = []\<rparr>, 0) =
     Inr (\<lparr>taxa = [], features = [(''B'', []), (''C'', [])]\<rparr>, 2) \<and>
   features \<lparr>taxa = [], features = [(''B'', []), (''C'', [])]\<rparr> \<noteq> [] \<and>
   taxa \<lparr>taxa = [], features = [(''B'', []), (''C'', [])]\<rparr> = [] \<and>
   drop 1 [''A'', '' B'', '' C''] \<noteq> [] \<and> distinct (map strip (drop 1 [''A'', '' B'', '' C''])) \<and>
   Matrix float_lit [[''A'', '' B'', '' C'']] = Inl NoTaxa"
proof -
  let ?m0 = "\<lparr>taxa = [], features = []\<rparr>"
  let ?m1 = "\<lparr>taxa = [], features = [(''B'', []), (''C'', [])]\<rparr>"
  have a: "readRows float_lit 1 [[''Ignored'']] (?m0, 0) = Inr (?m0, 0)" by simp
  have b: "features ?m0 = []" by simp
  have c: "readRows float_lit 1 [[''A'', '' B'', '' C'']] (?m0, 0) = Inr (?m1, 2)"
    by (simp add: keys_def)
  have d: "features ?m1 \<noteq> []" "taxa ?m1 = []" by simp_all
  have e: "drop 1 [''A'', '' B'', '' C''] \<noteq> []"
    "distinct (map strip (drop 1 [''A'', '' B'', '' C'']))" by simp_all
  from no_features_no_taxa [of float_lit "[[''Ignored'']]" ?m0 0] a b
  have "Matrix float_lit [[''Ignored'']] = Inl NoInput" by blast
  moreover from no_features_no_taxa [of float_lit "[[''A'', '' B'', '' C'']]" ?m1 2 "[''A'', '' B'', '' C'']"] c d e
  have "Matrix float_lit [[''A'', '' B'', '' C'']] = Inl NoTaxa" by blast
  ultimately show ?thesis using a b c d e by blast
qed

lemma mismatch_at_row:
  assumes "readRows pfloat 1 (hdr # pre) (\<lparr>taxa = [], features = []\<rparr>, 0) = Inr (m, n)"
    and "int (length flds) - 1 \<noteq> int n"
  shows "Matrix pfloat (hdr # pre @ flds # post) =
         Inl (FieldCount (length pre + 2) (int (length flds) - 1) n)"
proof -
  have "readRows pfloat 1 ((hdr # pre) @ flds # post) (\<lparr>taxa = [], features = []\<rparr>, 0) =
        readRows pfloat (1 + length (hdr # pre)) (flds # post) (m, n)"
    unfolding readRows_append assms(1) by simp
  also have "\<dots> = Inl (FieldCount (length pre + 2) (int (length flds) - 1) n)"
    using assms(2) by (simp add: dataRow_def)
  finally show ?thesis by (simp add: Matrix_def)
qed

text \<open>
  C6, as amended. For every data row with at least one cell that is reached, the header and
  all rows before it having been read without error, if the number of its value cells (the
  cells after the first) differs from the number of feature headers, construction fails with
  the \<^verbatim>\<open>ValueError\<close> that reports the 1-based number of the row, counting the header
  as row 1, the number of value cells and the number of feature headers. The input
  \<^verbatim>\<open>Ignored, A, B, C\<close> / \<^verbatim>\<open>name, 3, 4, 5, 6\<close> fails reporting row 2 with 4 value
  fields against 3 feature headers.
\<close>

theorem field_count_mismatch:
  assumes "readRows pfloat 1 (hdr # pre) (\<lparr>taxa = [], features = []\<rparr>, 0) = Inr (m, n)"
    and "flds \<noteq> []" and "length (tl flds) \<noteq> length (drop 1 hdr)"
  shows "Matrix pfloat (hdr # pre @ flds # post) =
           Inl (FieldCount (length pre + 2) (int (length (tl flds))) (length (drop 1 hdr))) \<and>
         Matrix pf [[''Ignored'', '' A'', '' B'', '' C''], [''name'', '' 3'', '' 4'', '' 5'', '' 6'']] =
           Inl (FieldCount 2 4 3) \<and>
         message repr (FieldCount 2 4 3) =
           ''Input row 2 contains 4 value fields, but there were 3 feature (column) headers''"
proof -
  from readRows_header [OF assms(1)] have "n = length (features m)"
    "keys (features m) = map strip (drop 1 hdr)" by simp_all
  then have n: "n = length (drop 1 hdr)"
    unfolding keys_def by (metis length_map)
  have l: "int (length flds) - 1 = int (length (tl flds))"
    using assms(2) by (cases flds) simp_all
  have "Matrix pfloat (hdr # pre @ flds # post) =
           Inl (FieldCount (length pre + 2) (int (length (tl flds))) (length (drop 1 hdr)))"
    using mismatch_at_row [OF assms(1), of flds post] assms(3) unfolding l n by simp
  moreover have "Matrix pf [[''Ignored'', '' A'', '' B'', '' C''], [''name'', '' 3'', '' 4'', '' 5'', '' 6'']] =
           Inl (FieldCount 2 4 3)"
    by (simp add: Matrix_def dataRow_def keys_def)
  moreover have "message repr (FieldCount 2 4 3) =
           ''Input row 2 contains 4 value fields, but there were 3 feature (column) headers''"
    by (simp add: str_small)
  ultimately show ?thesis by blast
qed

theorem field_count_mismatch_witness:
  "readRows float_lit 1 ([''Ignored'', '' A'', '' B''] # [[''name1'', '' 3'', '' 4'']])
     (\<lparr>taxa = [], features = []\<rparr>, 0) =
     Inr (\<lparr>taxa = [(''name1'', [Finite 3, Finite 4])],
           features = [(''A'', [Finite 3]), (''B'', [Finite 4])]\<rparr>, 2) \<and>
   [''name2'', '' 5''] \<noteq> [] \<and>
   length (tl [''name2'', '' 5'']) \<noteq> length (drop 1 [''Ignored'', '' A'', '' B'']) \<and>
   Matrix float_lit [[''Ignored'', '' A'', '' B''], [''name1'', '' 3'', '' 4''], [''name2'', '' 5''],
                     [''name3'', '' 6'', '' 7'']] =
     Inl (FieldCount 3 1 2)"
proof -
  let ?m = "\<lparr>taxa = [(''name1'', [Finite 3, Finite 4])],
           features = [(''A'', [Finite 3]), (''B'', [Finite 4])]\<rparr>"
  have a: "readRows float_lit 1 ([''Ignored'', '' A'', '' B''] # [[''name1'', '' 3'', '' 4'']])
     (\<lparr>taxa = [], features = []\<rparr>, 0) = Inr (?m, 2)"
    by (simp add: dataRow_def keys_def float_lit_def)
  have b: "[''name2'', '' 5''] \<noteq> []" by simp
  have c: "length (tl [''name2'', '' 5'']) \<noteq> length (drop 1 [''Ignored'', '' A'', '' B''])" by simp
  from field_count_mismatch [OF a b c, of "[[''name3'', '' 6'', '' 7'']]"]
  have "Matrix float_lit [[''Ignored'', '' A'', '' B''], [''name1'', '' 3'', '' 4''], [''name2'', '' 5''],
                     [''name3'', '' 6'', '' 7'']] = Inl (FieldCount 3 1 2)"
    by simp
  with a b c show ?thesis by blast
qed

text \<open>
  A blank line is the empty row for \<^verbatim>\<open>csv.reader\<close>: it has no cell at all, and the
  count that the error reports for it is \<^verbatim>\<open>len(fields) - 1\<close>, that is -1.
\<close>

lemma blank_row:
  "Matrix pfloat [[''Ignored'', '' A''], []] = Inl (FieldCount 2 (- 1) 1)"
  "message repr (FieldCount 2 (- 1) 1) =
     ''Input row 2 contains -1 value fields, but there were 1 feature (column) headers''"
  by (simp add: Matrix_def dataRow_def keys_def, code_simp)

text \<open>
  C6 as stated fails when an earlier row fails first: row 4 has 2 value cells against 1
  feature header, but row 3 repeats the taxon name of row 2 and construction fails there.
\<close>

theorem field_count_mismatch_counterexample:
  "length (tl (repeated_then_long ! 3)) \<noteq> length (tl (repeated_then_long ! 0)) \<and>
   Matrix float_lit repeated_then_long = Inl (DuplicateTaxon ''x'') \<and>
   Matrix float_lit repeated_then_long \<noteq> Inl (FieldCount 4 2 1)"
  by (simp add: repeated_then_long_def Matrix_def dataRow_def keys_def float_lit_def)

lemma no_features_read:
  assumes "drop 1 hdr = []" and "\<forall>r \<in> set drows. length r = 1"
    and "distinct (map (\<lambda>r. strip (hd r)) drows)"
  shows "readRows pfloat 1 (hdr # drows) (\<lparr>taxa = [], features = []\<rparr>, 0) =
         Inr (\<lparr>taxa = map (\<lambda>r. (strip (hd r), [])) drows, features = []\<rparr>, 0)"
proof -
  let ?m0 = "\<lparr>taxa = [], features = []\<rparr>"
  have "readRows pfloat (Suc (Suc 0)) drows (?m0, 0) =
         Inr (?m0\<lparr>taxa := taxa ?m0 @ map (\<lambda>r. (strip (hd r), [])) drows\<rparr>, 0)"
    by (rule readRows_no_features) (use assms in \<open>simp_all add: keys_def\<close>)
  then show ?thesis using assms(1) by simp
qed

text \<open>
  C10, as amended. When the header declares no feature name, the data rows are still checked
  against a feature count of zero. A data row with one or more value cells makes
  construction fail with the field-count error of that row, provided every row before it is a
  single cell with a taxon name not seen before. Construction fails with
  \<^verbatim>\<open>No input CSV data found.\<close> exactly when every data row is a single cell and the
  stripped taxon names are all different; data rows may then be present, since the check for
  no features runs before the check for no taxa.
\<close>

theorem zero_feature_header:
  assumes "drop 1 hdr = []"
  shows "(Matrix pfloat (hdr # drows) = Inl NoInput \<longleftrightarrow>
            (\<forall>r \<in> set drows. length r = 1) \<and> distinct (map (\<lambda>r. strip (hd r)) drows)) \<and>
         ((\<forall>r \<in> set pre. length r = 1) \<and> distinct (map (\<lambda>r. strip (hd r)) pre) \<and>
          1 < length flds \<longrightarrow>
            Matrix pfloat (hdr # pre @ flds # post) =
              Inl (FieldCount (length pre + 2) (int (length (tl flds))) 0))"
proof -
  let ?m0 = "\<lparr>taxa = [], features = []\<rparr>"
  let ?names = "\<lambda>rows. map (\<lambda>r. strip (hd r)) rows"
  have a: "Matrix pfloat (hdr # drows) = Inl NoInput"
    if "\<forall>r \<in> set drows. length r = 1" "distinct (?names drows)"
    using no_features_read [OF assms that, of pfloat] by (simp add: Matrix_def)
  have b: "(\<forall>r \<in> set drows. length r = 1) \<and> distinct (?names drows)"
    if ni: "Matrix pfloat (hdr # drows) = Inl NoInput"
  proof (cases "readRows pfloat 1 (hdr # drows) (?m0, 0)")
    case (Inl e)
    with ni have "e = NoInput" by (simp add: Matrix_def)
    with readRows_error [OF Inl] show ?thesis by simp
  next
    case (Inr s)
    obtain m n where s: "s = (m, n)" by (cases s)
    from readRows_header [OF Inr [unfolded s]] have g: "grid m"
      and n: "n = length (features m)" and k: "keys (features m) = map strip (drop 1 hdr)"
      and t: "taxa m = map (taxon_of pfloat) drows" and l: "\<forall>r \<in> set drows. length r = Suc n"
      by simp_all
    from k assms have "features m = []" by (simp add: keys_def)
    with n l have "\<forall>r \<in> set drows. length r = 1" by simp
    moreover have "keys (taxa m) = ?names drows"
      by (simp add: t keys_def taxon_of_def comp_def)
    with g have "distinct (?names drows)" by (simp add: grid_def)
    ultimately show ?thesis by simp
  qed
  have c: "Matrix pfloat (hdr # pre @ flds # post) =
              Inl (FieldCount (length pre + 2) (int (length (tl flds))) 0)"
    if "\<forall>r \<in> set pre. length r = 1" "distinct (?names pre)" "1 < length flds"
  proof -
    have "int (length flds) - 1 \<noteq> int 0" using that(3) by simp
    from mismatch_at_row [OF no_features_read [OF assms that(1,2)] this, where post = post]
    show ?thesis using that(3) by (cases flds) simp_all
  qed
  from a b c show ?thesis by blast
qed

theorem zero_feature_header_witness:
  "drop 1 [''Ignored''] = [] \<and>
   length [''x''] = 1 \<and> length [''y''] = 1 \<and>
   distinct (map (\<lambda>r. strip (hd r)) [[''x''], [''y'']]) \<and>
   Matrix float_lit [[''Ignored''], [''x''], [''y'']] = Inl NoInput \<and>
   distinct (map (\<lambda>r. strip (hd r)) [[''x'']]) \<and>
   1 < length [''y'', '' 3''] \<and>
   Matrix float_lit [[''Ignored''], [''x''], [''y'', '' 3'']] = Inl (FieldCount 3 1 0)"
proof -
  have h: "drop 1 [''Ignored''] = []" by simp
  have l: "length [''x''] = 1" "length [''y''] = 1" by simp_all
  then have a: "(\<forall>r \<in> set [[''x''], [''y'']]. length r = 1) \<and>
     distinct (map (\<lambda>r. strip (hd r)) [[''x''], [''y'']])" by simp
  from l have b: "(\<forall>r \<in> set [[''x'']]. length r = 1) \<and> distinct (map (\<lambda>r. strip (hd r)) [[''x'']]) \<and>
     1 < length [''y'', '' 3'']" by simp
  from zero_feature_header [OF h, of float_lit "[[''x''], [''y'']]" "[[''x'']]" "[''y'', '' 3'']" "[]"] a b
  have "Matrix float_lit [[''Ignored''], [''x''], [''y'']] = Inl NoInput"
    and "Matrix float_lit ([''Ignored''] # [[''x'']] @ [''y'', '' 3''] # []) =
           Inl (FieldCount (length [[''x'']] + 2) (int (length (tl [''y'', '' 3'']))) 0)"
    by blast+
  then have "Matrix float_lit [[''Ignored''], [''x''], [''y'']] = Inl NoInput"
    and "Matrix float_lit [[''Ignored''], [''x''], [''y'', '' 3'']] = Inl (FieldCount 3 1 0)"
    by simp_all
  with h l a b show ?thesis by blast
qed

text \<open>
  C10 as stated fails when a taxon name is repeated before the row with a value cell:
  construction fails with the duplicate-taxon error of row 3, not with the field-count
  error of row 4.
\<close>

theorem zero_feature_header_counterexample:
  "drop 1 (no_features_repeated ! 0) = [] \<and> 1 < length (no_features_repeated ! 3) \<and>
   Matrix float_lit no_features_repeated = Inl (DuplicateTaxon ''x'')"
  by (simp add: no_features_repeated_def Matrix_def dataRow_def keys_def)

end
